theory Spec2Isabelle
  imports
    Complex_Main
    "HOL-Library.Sublist"
    "HOL-Library.Char_ord"
    "HOL-Library.List_Lexorder"
    "HOL-Library.Multiset"
begin

section \<open>Strings\<close>

text \<open>
  A Python \<open>str\<close> is modelled as a \<^typ>\<open>string\<close> holding its UTF-8 encoding, so the
  Chinese section and column names of the activity statement are byte lists. Equality of
  strings is equality of the encodings, and the lexicographic order of the encodings
  (\<open>List_Lexorder\<close> over \<open>Char_ord\<close>) is the code-point order that Python uses to compare
  strings.
\<close>

definition section_trades :: string where
  "section_trades = [CHR 0xE4, CHR 0xBA, CHR 0xA4, CHR 0xE6, CHR 0x98, CHR 0x93]"

definition section_deposits :: string where
  "section_deposits = [CHR 0xE5, CHR 0xAD, CHR 0x98, CHR 0xE6, CHR 0xAC, CHR 0xBE, CHR 0xE5,
     CHR 0x92, CHR 0x8C, CHR 0xE5, CHR 0x8F, CHR 0x96, CHR 0xE6, CHR 0xAC, CHR 0xBE]"

definition section_dividends :: string where
  "section_dividends = [CHR 0xE8, CHR 0x82, CHR 0xA1, CHR 0xE6, CHR 0x81, CHR 0xAF]"

definition section_taxes :: string where
  "section_taxes = [CHR 0xE4, CHR 0xBB, CHR 0xA3, CHR 0xE6, CHR 0x89, CHR 0xA3, CHR 0xE7,
     CHR 0xA8, CHR 0x8E]"

definition field_asset_class :: string where
  "field_asset_class = [CHR 0xE8, CHR 0xB5, CHR 0x84, CHR 0xE4, CHR 0xBA, CHR 0xA7, CHR 0xE5,
     CHR 0x88, CHR 0x86, CHR 0xE7, CHR 0xB1, CHR 0xBB]"

definition value_stock :: string where
  "value_stock = [CHR 0xE8, CHR 0x82, CHR 0xA1, CHR 0xE7, CHR 0xA5, CHR 0xA8]"

definition field_symbol :: string where
  "field_symbol = [CHR 0xE4, CHR 0xBB, CHR 0xA3, CHR 0xE7, CHR 0xA0, CHR 0x81]"

definition field_currency :: string where
  "field_currency = [CHR 0xE8, CHR 0xB4, CHR 0xA7, CHR 0xE5, CHR 0xB8, CHR 0x81]"

definition field_quantity :: string where
  "field_quantity = [CHR 0xE6, CHR 0x95, CHR 0xB0, CHR 0xE9, CHR 0x87, CHR 0x8F]"

definition field_price :: string where
  "field_price = [CHR 0xE4, CHR 0xBA, CHR 0xA4, CHR 0xE6, CHR 0x98, CHR 0x93, CHR 0xE4,
     CHR 0xBB, CHR 0xB7, CHR 0xE6, CHR 0xA0, CHR 0xBC]"

definition field_commission :: string where
  "field_commission = [CHR 0xE4, CHR 0xBD, CHR 0xA3, CHR 0xE9, CHR 0x87, CHR 0x91, CHR 0x2F,
     CHR 0xE7, CHR 0xA8, CHR 0x8E]"

definition field_datetime :: string where
  "field_datetime = [CHR 0xE6, CHR 0x97, CHR 0xA5, CHR 0xE6, CHR 0x9C, CHR 0x9F, CHR 0x2F,
     CHR 0xE6, CHR 0x97, CHR 0xB6, CHR 0xE9, CHR 0x97, CHR 0xB4]"

definition field_description :: string where
  "field_description = [CHR 0xE6, CHR 0x8F, CHR 0x8F, CHR 0xE8, CHR 0xBF, CHR 0xB0]"

definition field_amount :: string where
  "field_amount = [CHR 0xE9, CHR 0x87, CHR 0x91, CHR 0xE9, CHR 0xA2, CHR 0x9D]"

definition field_settle_date :: string where
  "field_settle_date = [CHR 0xE7, CHR 0xBB, CHR 0x93, CHR 0xE7, CHR 0xAE, CHR 0x97, CHR 0xE6,
     CHR 0x97, CHR 0xA5, CHR 0xE6, CHR 0x9C, CHR 0x9F]"

definition field_date :: string where
  "field_date = [CHR 0xE6, CHR 0x97, CHR 0xA5, CHR 0xE6, CHR 0x9C, CHR 0x9F]"

text \<open>
  The characters that \<open>str.strip()\<close> and \<open>float()\<close> treat as whitespace
  (\<open>str.isspace\<close>): U+0009..U+000D, U+001C..U+001F, U+0020, U+0085, U+00A0, U+1680,
  U+2000..U+200A, U+2028, U+2029, U+202F, U+205F and U+3000, each in UTF-8.
\<close>

definition whitespace :: "string list" where
  "whitespace =
    [[CHR 0x09], [CHR 0x0A], [CHR 0x0B], [CHR 0x0C], [CHR 0x0D],
     [CHR 0x1C], [CHR 0x1D], [CHR 0x1E], [CHR 0x1F], [CHR 0x20],
     [CHR 0xC2, CHR 0x85], [CHR 0xC2, CHR 0xA0],
     [CHR 0xE1, CHR 0x9A, CHR 0x80],
     [CHR 0xE2, CHR 0x80, CHR 0x80], [CHR 0xE2, CHR 0x80, CHR 0x81],
     [CHR 0xE2, CHR 0x80, CHR 0x82], [CHR 0xE2, CHR 0x80, CHR 0x83],
     [CHR 0xE2, CHR 0x80, CHR 0x84], [CHR 0xE2, CHR 0x80, CHR 0x85],
     [CHR 0xE2, CHR 0x80, CHR 0x86], [CHR 0xE2, CHR 0x80, CHR 0x87],
     [CHR 0xE2, CHR 0x80, CHR 0x88], [CHR 0xE2, CHR 0x80, CHR 0x89],
     [CHR 0xE2, CHR 0x80, CHR 0x8A],
     [CHR 0xE2, CHR 0x80, CHR 0xA8], [CHR 0xE2, CHR 0x80, CHR 0xA9],
     [CHR 0xE2, CHR 0x80, CHR 0xAF], [CHR 0xE2, CHR 0x81, CHR 0x9F],
     [CHR 0xE3, CHR 0x80, CHR 0x80]]"

definition leading_space :: "string \<Rightarrow> nat" where
  "leading_space s = (case find (\<lambda>w. prefix w s) whitespace of None \<Rightarrow> 0 | Some w \<Rightarrow> length w)"

definition trailing_space :: "string \<Rightarrow> nat" where
  "trailing_space s = (case find (\<lambda>w. suffix w s) whitespace of None \<Rightarrow> 0 | Some w \<Rightarrow> length w)"

function lstrip :: "string \<Rightarrow> string" where
  "lstrip s = (if 0 < leading_space s \<and> leading_space s \<le> length s
               then lstrip (drop (leading_space s) s) else s)"
  by pat_completeness auto
termination
  by (relation "measure length") (simp, simp, arith)

function rstrip :: "string \<Rightarrow> string" where
  "rstrip s = (if 0 < trailing_space s \<and> trailing_space s \<le> length s
               then rstrip (take (length s - trailing_space s) s) else s)"
  by pat_completeness auto
termination
  by (relation "measure length") (simp, simp, arith)

definition strip :: "string \<Rightarrow> string" where
  "strip s = rstrip (lstrip s)"

text \<open>\<open>s.replace(old, new)\<close> for a non-empty \<open>old\<close>: left to right,
  without overlap.\<close>

function py_replace :: "string \<Rightarrow> string \<Rightarrow> string \<Rightarrow> string" where
  "py_replace old new s =
     (case s of
        [] \<Rightarrow> []
      | c # cs \<Rightarrow>
          if old \<noteq> [] \<and> prefix old s then new @ py_replace old new (drop (length old) s)
          else c # py_replace old new cs)"
  by pat_completeness auto
termination
  by (relation "measure (\<lambda>(old, new, s). length s)") simp_all

text \<open>Decimal rendering of a non-negative Python \<open>int\<close>, as an f-string does
  it.\<close>

definition digit_char :: "nat \<Rightarrow> char" where
  "digit_char d = ''0123456789'' ! d"

fun str_nat :: "nat \<Rightarrow> string" where
  "str_nat n = (if n < 10 then [digit_char n] else str_nat (n div 10) @ [digit_char (n mod 10)])"

section \<open>Floating-point values\<close>

text \<open>
  A Python \<open>float\<close> is an IEEE 754 binary64 number. The program only parses floats,
  compares them with zero, takes absolute values and compares them for equality, so a value
  is modelled by the rational it denotes, or one of the two infinities, or NaN. The sign of
  zero is not kept: no comparison of the program can observe it.
\<close>

datatype pyfloat = Fin rat | PosInf | NegInf | NaN

definition py_gt0 :: "pyfloat \<Rightarrow> bool" where
  "py_gt0 x = (case x of Fin q \<Rightarrow> 0 < q | PosInf \<Rightarrow> True | NegInf \<Rightarrow> False | NaN \<Rightarrow> False)"

definition py_ge0 :: "pyfloat \<Rightarrow> bool" where
  "py_ge0 x = (case x of Fin q \<Rightarrow> 0 \<le> q | PosInf \<Rightarrow> True | NegInf \<Rightarrow> False | NaN \<Rightarrow> False)"

definition py_le0 :: "pyfloat \<Rightarrow> bool" where
  "py_le0 x = (case x of Fin q \<Rightarrow> q \<le> 0 | PosInf \<Rightarrow> False | NegInf \<Rightarrow> True | NaN \<Rightarrow> False)"

definition py_lt0 :: "pyfloat \<Rightarrow> bool" where
  "py_lt0 x = (case x of Fin q \<Rightarrow> q < 0 | PosInf \<Rightarrow> False | NegInf \<Rightarrow> True | NaN \<Rightarrow> False)"

definition py_abs :: "pyfloat \<Rightarrow> pyfloat" where
  "py_abs x = (case x of Fin q \<Rightarrow> Fin \<bar>q\<bar> | PosInf \<Rightarrow> PosInf | NegInf \<Rightarrow> PosInf | NaN \<Rightarrow> NaN)"

text \<open>\<open>x == y\<close> on two float objects: NaN is equal to nothing, itself
  included.\<close>

definition py_eq :: "pyfloat \<Rightarrow> pyfloat \<Rightarrow> bool" where
  "py_eq x y = (x \<noteq> NaN \<and> x = y)"

subsection \<open>The builtin \<open>float(str)\<close>\<close>

text \<open>
  \<open>float\<close> first rewrites its argument to ASCII: a character below 127 stays, any other
  whitespace character becomes a space, any other decimal digit (a character of the
  category Nd in the interpreter's Unicode database) becomes the ASCII digit of its
  value, and at the first character that is none of these the text is cut and ends in
  \<open>?\<close>. Leading and trailing ASCII whitespace (tab, line feed, vertical tab, form feed,
  carriage return, space) is then dropped; U+001C..U+001F are whitespace for
  \<open>str.strip\<close> but not here. What is left is an optional sign and then either \<open>inf\<close>,
  \<open>infinity\<close> or \<open>nan\<close> in any letter case, or a decimal number
  \<open>[digits][.digits][(e|E)[sign]digits]\<close> whose digit groups may hold single underscores
  between digits. The number is rounded to the nearest binary64 value, ties to even;
  beyond the largest finite value the result is an infinity. Anything else raises
  \<open>ValueError\<close>, which is \<open>None\<close> here.
\<close>

text \<open>The UTF-8 encoding of one character: its length by the first byte, its code
  point.\<close>

definition seq_len :: "char \<Rightarrow> nat" where
  "seq_len c =
     (if (of_char c :: nat) < 0xC0 then 1 else if (of_char c :: nat) < 0xE0 then 2
      else if (of_char c :: nat) < 0xF0 then 3 else 4)"

definition code_point :: "string \<Rightarrow> nat" where
  "code_point bs =
     (case map of_char bs of
        [b0] \<Rightarrow> b0
      | [b0, b1] \<Rightarrow> (b0 - 0xC0) * 64 + (b1 - 0x80)
      | [b0, b1, b2] \<Rightarrow> (b0 - 0xE0) * 4096 + (b1 - 0x80) * 64 + (b2 - 0x80)
      | [b0, b1, b2, b3] \<Rightarrow>
          (b0 - 0xF0) * 262144 + (b1 - 0x80) * 4096 + (b2 - 0x80) * 64 + (b3 - 0x80)
      | _ \<Rightarrow> 0)"

text \<open>The whitespace characters from 127 on, by code point.\<close>

definition unicode_spaces :: "nat list" where
  "unicode_spaces =
    [0x85, 0xA0, 0x1680, 0x2000, 0x2001, 0x2002, 0x2003, 0x2004, 0x2005, 0x2006, 0x2007,
     0x2008, 0x2009, 0x200A, 0x2028, 0x2029, 0x202F, 0x205F, 0x3000]"

text \<open>
  The decimal digits beyond ASCII come in runs of ten, zero to nine; these are the code
  points of the zeros (Unicode 14.0, the database of CPython 3.11).
\<close>

definition decimal_zeros :: "nat list" where
  "decimal_zeros =
    [0x660, 0x6F0, 0x7C0, 0x966, 0x9E6, 0xA66, 0xAE6, 0xB66, 0xBE6, 0xC66, 0xCE6,
     0xD66, 0xDE6, 0xE50, 0xED0, 0xF20, 0x1040, 0x1090, 0x17E0, 0x1810, 0x1946, 0x19D0,
     0x1A80, 0x1A90, 0x1B50, 0x1BB0, 0x1C40, 0x1C50, 0xA620, 0xA8D0, 0xA900, 0xA9D0,
     0xA9F0, 0xAA50, 0xABF0, 0xFF10, 0x104A0, 0x10D30, 0x11066, 0x110F0, 0x11136,
     0x111D0, 0x112F0, 0x11450, 0x114D0, 0x11650, 0x116C0, 0x11730, 0x118E0, 0x11950,
     0x11C50, 0x11D50, 0x11DA0, 0x16A60, 0x16AC0, 0x16B50, 0x1D7CE, 0x1D7D8, 0x1D7E2,
     0x1D7EC, 0x1D7F6, 0x1E140, 0x1E2F0, 0x1E950, 0x1FBF0]"

definition decimal_value :: "nat \<Rightarrow> nat option" where
  "decimal_value cp =
     (case find (\<lambda>z. z \<le> cp \<and> cp \<le> z + 9) decimal_zeros of
        None \<Rightarrow> None
      | Some z \<Rightarrow> Some (cp - z))"

function to_ascii :: "string \<Rightarrow> string" where
  "to_ascii [] = []"
| "to_ascii (c # cs) =
     (if (of_char c :: nat) < 127 then c # to_ascii cs
      else if code_point (take (seq_len c) (c # cs)) \<in> set unicode_spaces
      then CHR '' '' # to_ascii (drop (seq_len c - 1) cs)
      else
        (case decimal_value (code_point (take (seq_len c) (c # cs))) of
           None \<Rightarrow> ''?''
         | Some d \<Rightarrow> ''0123456789'' ! d # to_ascii (drop (seq_len c - 1) cs)))"
  by pat_completeness auto
termination
  by (relation "measure length") simp_all

definition ascii_space :: "char \<Rightarrow> bool" where
  "ascii_space c = (c \<in> set [CHR 0x09, CHR 0x0A, CHR 0x0B, CHR 0x0C, CHR 0x0D, CHR 0x20])"

definition strip_ascii :: "string \<Rightarrow> string" where
  "strip_ascii s = rev (dropWhile ascii_space (rev (dropWhile ascii_space s)))"

definition is_digit :: "char \<Rightarrow> bool" where
  "is_digit c = (c \<in> set ''0123456789'')"

definition digit_val :: "char \<Rightarrow> nat" where
  "digit_val c = of_char c - 48"

definition lower_ascii :: "char \<Rightarrow> char" where
  "lower_ascii c =
     (if (65::nat) \<le> of_char c \<and> of_char c \<le> (90::nat) then char_of (of_char c + (32::nat)) else c)"

fun digits_more :: "string \<Rightarrow> nat list \<times> string" where
  "digits_more (c # d # cs) =
     (if is_digit c then (case digits_more (d # cs) of (ds, r) \<Rightarrow> (digit_val c # ds, r))
      else if c = CHR ''_'' \<and> is_digit d then
        (case digits_more cs of (ds, r) \<Rightarrow> (digit_val d # ds, r))
      else ([], c # d # cs))"
| "digits_more [c] = (if is_digit c then ([digit_val c], []) else ([], [c]))"
| "digits_more [] = ([], [])"

definition digitpart :: "string \<Rightarrow> (nat list \<times> string) option" where
  "digitpart s =
     (case s of
        [] \<Rightarrow> None
      | c # cs \<Rightarrow>
          if is_digit c then (case digits_more cs of (ds, r) \<Rightarrow> Some (digit_val c # ds, r))
          else None)"

definition nat_of_digits :: "nat list \<Rightarrow> nat" where
  "nat_of_digits ds = foldl (\<lambda>a d. 10 * a + d) 0 ds"

definition take_sign :: "string \<Rightarrow> bool \<times> string" where
  "take_sign s =
     (case s of
        [] \<Rightarrow> (False, s)
      | c # cs \<Rightarrow>
          if c = CHR ''-'' then (True, cs) else if c = CHR ''+'' then (False, cs) else (False, s))"

definition parse_mantissa :: "string \<Rightarrow> (nat list \<times> nat list \<times> string) option" where
  "parse_mantissa s =
     (case digitpart s of
        Some (ip, r) \<Rightarrow>
          (case r of
             [] \<Rightarrow> Some (ip, [], r)
           | c # r' \<Rightarrow>
               if c = CHR ''.'' then
                 (case digitpart r' of
                    Some (fp, r'') \<Rightarrow> Some (ip, fp, r'')
                  | None \<Rightarrow> Some (ip, [], r'))
               else Some (ip, [], r))
      | None \<Rightarrow>
          (case s of
             [] \<Rightarrow> None
           | c # r' \<Rightarrow>
               if c = CHR ''.'' then
                 (case digitpart r' of
                    Some (fp, r'') \<Rightarrow> Some ([], fp, r'')
                  | None \<Rightarrow> None)
               else None))"

definition parse_exponent :: "string \<Rightarrow> int option" where
  "parse_exponent s =
     (case s of
        [] \<Rightarrow> Some 0
      | c # r \<Rightarrow>
          if c = CHR ''e'' \<or> c = CHR ''E'' then
            (case take_sign r of
               (neg, r') \<Rightarrow>
                 (case digitpart r' of
                    Some (ds, []) \<Rightarrow>
                      Some (if neg then - int (nat_of_digits ds) else int (nat_of_digits ds))
                  | Some (ds, x # xs) \<Rightarrow> None
                  | None \<Rightarrow> None))
          else None)"

text \<open>A decimal literal as a mantissa and a power of ten: the value is \<open>m * 10 ^
  e\<close>.\<close>

definition parse_number :: "string \<Rightarrow> (nat \<times> int) option" where
  "parse_number s =
     (case parse_mantissa s of
        None \<Rightarrow> None
      | Some (ip, fp, r) \<Rightarrow>
          (case parse_exponent r of
             None \<Rightarrow> None
           | Some ex \<Rightarrow> Some (nat_of_digits (ip @ fp), ex - int (length fp))))"

fun bit_length :: "nat \<Rightarrow> nat" where
  "bit_length n = (if n = 0 then 0 else Suc (bit_length (n div 2)))"

text \<open>
  \<open>round_double a b\<close> is the binary64 value nearest to \<open>a / b\<close> (for \<open>b > 0\<close>):
  \<open>binary_exponent\<close> is the exponent \<open>k\<close> with \<open>2 ^ k \<le> a / b < 2 ^ (k + 1)\<close>, the last
  of the 53 mantissa bits has the exponent \<open>k - 52\<close>, but not below the subnormal
  \<open>- 1074\<close>, and the mantissa is the quotient at that exponent rounded half to even.
  The rounded mantissa is at most \<open>2 ^ 53\<close>, so the result reaches \<open>2 ^ 1024\<close>, where
  binary64 overflows to infinity, exactly when the exponent is above 971 or the mantissa
  is \<open>2 ^ 53\<close> at the exponent 971.
\<close>

definition binary_exponent :: "nat \<Rightarrow> nat \<Rightarrow> int" where
  "binary_exponent a b =
     (let k0 = int (bit_length a) - int (bit_length b)
      in if (if 0 \<le> k0 then b * 2 ^ nat k0 \<le> a else b \<le> a * 2 ^ nat (- k0))
         then k0 else k0 - 1)"

definition round_half_even :: "nat \<Rightarrow> nat \<Rightarrow> nat" where
  "round_half_even num den =
     (let q = num div den; r = num mod den
      in if 2 * r < den then q else if den < 2 * r then q + 1
         else if even q then q else q + 1)"

definition scaled :: "int \<Rightarrow> nat \<Rightarrow> pyfloat" where
  "scaled ex mant =
     (if 971 < ex \<or> (ex = 971 \<and> 2 ^ 53 \<le> mant) then PosInf
      else if 0 \<le> ex then Fin (of_nat (mant * 2 ^ nat ex))
      else Fin (of_nat mant / of_nat (2 ^ nat (- ex))))"

definition round_at :: "nat \<Rightarrow> nat \<Rightarrow> int \<Rightarrow> pyfloat" where
  "round_at a b ex =
     (if 0 \<le> ex then scaled ex (round_half_even a (b * 2 ^ nat ex))
      else scaled ex (round_half_even (a * 2 ^ nat (- ex)) b))"

definition round_double :: "nat \<Rightarrow> nat \<Rightarrow> pyfloat" where
  "round_double a b =
     (if a = 0 then Fin 0 else round_at a b (max (binary_exponent a b - 52) (- 1074)))"

definition negate :: "pyfloat \<Rightarrow> pyfloat" where
  "negate x = (case x of Fin q \<Rightarrow> Fin (- q) | PosInf \<Rightarrow> NegInf | NegInf \<Rightarrow> PosInf | NaN \<Rightarrow> NaN)"

definition py_float :: "string \<Rightarrow> pyfloat option" where
  "py_float s =
     (case take_sign (strip_ascii (to_ascii s)) of
        (neg, u) \<Rightarrow>
          let l = map lower_ascii u in
          if l = ''inf'' \<or> l = ''infinity'' then Some (if neg then NegInf else PosInf)
          else if l = ''nan'' then Some NaN
          else
            (case parse_number u of
               None \<Rightarrow> None
             | Some (m, e) \<Rightarrow>
                 let x = (if 0 \<le> e then round_double (m * 10 ^ nat e) 1
                          else round_double m (10 ^ nat (- e)))
                 in Some (if neg then negate x else x)))"

section \<open>The section parser\<close>

text \<open>
  A raw record is the \<open>dict\<close> built from one Data row: field name to field text.
  The file is read by \<open>csv.reader\<close>, which is outside the program; the parser is
  modelled on the rows it yields, each a list of fields.
\<close>

type_synonym raw_record = "string \<rightharpoonup> string"

datatype error = KeyError | ValueError

text \<open>
  The renaming pass over \<open>raw_headers\<close>: \<open>seen_headers\<close> counts the occurrences
  of each name so far, \<open>deduped\<close> collects the names in order.
\<close>

fun dedupe_headers_loop ::
  "(string \<rightharpoonup> nat) \<Rightarrow> string list \<Rightarrow> string list \<Rightarrow> string list" where
  "dedupe_headers_loop seen_headers deduped [] = deduped"
| "dedupe_headers_loop seen_headers deduped (h # hs) =
     (case seen_headers h of
        Some c \<Rightarrow>
          dedupe_headers_loop (seen_headers(h \<mapsto> c + 1))
            (deduped @ [h @ ''_'' @ str_nat (c + 1)]) hs
      | None \<Rightarrow> dedupe_headers_loop (seen_headers(h \<mapsto> 1)) (deduped @ [h]) hs)"

definition dedupe_headers :: "string list \<Rightarrow> string list" where
  "dedupe_headers raw_headers = dedupe_headers_loop Map.empty [] raw_headers"

text \<open>\<open>while len(data) < len(current_headers): data.append("")\<close>\<close>

function pad_data :: "nat \<Rightarrow> string list \<Rightarrow> string list" where
  "pad_data n data = (if length data < n then pad_data n (data @ [[]]) else data)"
  by pat_completeness auto
termination
  by (relation "measure (\<lambda>(n, data). n - length data)") simp_all

text \<open>
  \<open>dict(zip(current_headers, data))\<close> after the padding: \<open>zip\<close> stops at the shorter
  list, and a later pair overwrites an earlier one with the same name.
\<close>

definition make_record :: "string list \<Rightarrow> string list \<Rightarrow> raw_record" where
  "make_record current_headers data =
     map_of (rev (zip current_headers (pad_data (length current_headers) data)))"

record parser_state =
  sections :: "string \<rightharpoonup> raw_record list"
  current_section :: "string option"
  current_headers :: "string list option"

definition initial_state :: parser_state where
  "initial_state = \<lparr>sections = Map.empty, current_section = None, current_headers = None\<rparr>"

text \<open>
  The body of the loop over the rows. \<open>sections[section].append(record)\<close> is a key
  lookup, so a missing key is the \<open>KeyError\<close> branch.
\<close>

definition parse_row :: "parser_state \<Rightarrow> string list \<Rightarrow> error + parser_state" where
  "parse_row st row =
     (if length row < 2 then Inr st
      else
        let section = strip (row ! 0); row_type = strip (row ! 1) in
        if row_type = ''Header'' then
          Inr \<lparr>sections =
                 (if section \<in> dom (sections st) then sections st
                  else (sections st)(section \<mapsto> [])),
               current_section = Some section,
               current_headers = Some (dedupe_headers (drop 2 row))\<rparr>
        else if row_type = ''Data'' \<and> current_section st = Some section
                \<and> current_headers st \<noteq> None \<and> current_headers st \<noteq> Some [] then
          (case sections st section of
             None \<Rightarrow> Inl KeyError
           | Some records \<Rightarrow>
               Inr (st\<lparr>sections := (sections st)(section \<mapsto>
                      records @ [make_record (the (current_headers st)) (drop 2 row)])\<rparr>))
        else Inr st)"

fun parse_rows :: "parser_state \<Rightarrow> string list list \<Rightarrow> error + parser_state" where
  "parse_rows st [] = Inr st"
| "parse_rows st (row # rows) =
     (case parse_row st row of Inl e \<Rightarrow> Inl e | Inr st' \<Rightarrow> parse_rows st' rows)"

definition parse_activity_statement ::
  "string list list \<Rightarrow> error + (string \<rightharpoonup> raw_record list)" where
  "parse_activity_statement rows =
     (case parse_rows initial_state rows of Inl e \<Rightarrow> Inl e | Inr st \<Rightarrow> Inr (sections st))"

section \<open>The record converters\<close>

text \<open>
  A normalized record is a \<open>dict\<close> with the six keys of \<open>TV_FIELDNAMES\<close>. \<open>Qty\<close> is
  always a float; \<open>Commission\<close> is a float or the empty string.
\<close>

datatype pyval = Str string | Num pyfloat

record tv_row =
  Symbol :: string
  Side :: string
  Qty :: pyfloat
  Fill_Price :: string
  Commission :: pyval
  Closing_Time :: string

definition get_tv_symbol :: "string \<Rightarrow> string \<Rightarrow> (string \<rightharpoonup> string) \<Rightarrow> string" where
  "get_tv_symbol symbol currency symbol_exchange_map =
     (if currency = ''HKD'' then ''HKEX:'' @ symbol
      else (case symbol_exchange_map symbol of None \<Rightarrow> ''NASDAQ'' | Some exchange \<Rightarrow> exchange)
           @ '':'' @ symbol)"

text \<open>\<open>r[k]\<close>, \<open>r.get(k, "")\<close> and \<open>float(s)\<close> with
  their exceptions as values.\<close>

definition item :: "raw_record \<Rightarrow> string \<Rightarrow> error + string" where
  "item r k = (case r k of None \<Rightarrow> Inl KeyError | Some v \<Rightarrow> Inr v)"

definition get_or_empty :: "raw_record \<Rightarrow> string \<Rightarrow> string" where
  "get_or_empty r k = (case r k of None \<Rightarrow> [] | Some v \<Rightarrow> v)"

definition to_float :: "string \<Rightarrow> error + pyfloat" where
  "to_float s = (case py_float s of None \<Rightarrow> Inl ValueError | Some x \<Rightarrow> Inr x)"

definition and_then :: "error + 'a \<Rightarrow> ('a \<Rightarrow> error + 'b) \<Rightarrow> error + 'b" where
  "and_then m f = (case m of Inl e \<Rightarrow> Inl e | Inr x \<Rightarrow> f x)"

text \<open>
  The body of each converter's loop on one record: an exception, \<open>continue\<close>
  (\<open>Inr None\<close>), or the row appended to \<open>rows\<close>. The statements are in the order of the
  source, which fixes the exception raised first.
\<close>

definition trade_row :: "(string \<rightharpoonup> string) \<Rightarrow> raw_record \<Rightarrow> error + tv_row option" where
  "trade_row symbol_exchange_map r =
     (if r ''DataDiscriminator'' \<noteq> Some ''Order'' then Inr None
      else if r field_asset_class \<noteq> Some value_stock then Inr None
      else
        and_then (item r field_symbol) (\<lambda>v_symbol.
        and_then (item r field_currency) (\<lambda>v_currency.
        and_then (item r field_quantity) (\<lambda>v_quantity.
        and_then (to_float v_quantity) (\<lambda>qty_raw.
        and_then (item r field_price) (\<lambda>v_price.
        and_then (item r field_commission) (\<lambda>v_commission.
        and_then (if strip v_commission \<noteq> [] then
                    and_then (to_float v_commission) (\<lambda>c. Inr (Num (py_abs c)))
                  else Inr (Str [])) (\<lambda>commission.
        and_then (item r field_datetime) (\<lambda>v_datetime.
          Inr (Some \<lparr>Symbol = get_tv_symbol (strip v_symbol) (strip v_currency)
                                 symbol_exchange_map,
                     Side = (if py_gt0 qty_raw then ''Buy'' else ''Sell''),
                     Qty = py_abs qty_raw,
                     Fill_Price = strip v_price,
                     Commission = commission,
                     Closing_Time = py_replace '', '' '' '' (strip v_datetime)\<rparr>))))))))))"

definition midnight :: "string \<Rightarrow> string" where
  "midnight dt = (if dt \<noteq> [] then dt @ '' 0:00:00'' else dt)"

definition cash_row :: "raw_record \<Rightarrow> error + tv_row option" where
  "cash_row r =
     (if strip (get_or_empty r field_description) = [] then Inr None
      else if strip (get_or_empty r field_amount) = [] then Inr None
      else
        and_then (to_float (strip (get_or_empty r field_amount))) (\<lambda>amount.
          Inr (Some \<lparr>Symbol = ''$CASH'',
                     Side = (if py_gt0 amount then ''Deposit'' else ''Withdrawal''),
                     Qty = (if py_gt0 amount then amount else py_abs amount),
                     Fill_Price = [],
                     Commission = Str [],
                     Closing_Time = midnight (strip (get_or_empty r field_settle_date))\<rparr>)))"

definition dividend_row :: "raw_record \<Rightarrow> error + tv_row option" where
  "dividend_row r =
     (if strip (get_or_empty r field_description) = [] then Inr None
      else if strip (get_or_empty r field_amount) = [] then Inr None
      else
        and_then (to_float (strip (get_or_empty r field_amount))) (\<lambda>amount.
          if py_le0 amount then Inr None
          else
            Inr (Some \<lparr>Symbol = ''$CASH'',
                       Side = ''Dividend'',
                       Qty = amount,
                       Fill_Price = [],
                       Commission = Str [],
                       Closing_Time = midnight (strip (get_or_empty r field_date))\<rparr>)))"

definition tax_row :: "raw_record \<Rightarrow> error + tv_row option" where
  "tax_row r =
     (if strip (get_or_empty r field_description) = [] then Inr None
      else if strip (get_or_empty r field_amount) = [] then Inr None
      else
        and_then (to_float (strip (get_or_empty r field_amount))) (\<lambda>amount.
          if py_ge0 amount then Inr None
          else
            Inr (Some \<lparr>Symbol = ''$CASH'',
                       Side = ''Taxes and fees'',
                       Qty = py_abs amount,
                       Fill_Price = [],
                       Commission = Str [],
                       Closing_Time = midnight (strip (get_or_empty r field_date))\<rparr>)))"

text \<open>
  \<open>rows = []; for r in records: ...; return rows\<close>, the loop shared by the four
  converters: the first exception ends it.
\<close>

fun convert_loop ::
  "(raw_record \<Rightarrow> error + tv_row option) \<Rightarrow> tv_row list \<Rightarrow> raw_record list
     \<Rightarrow> error + tv_row list" where
  "convert_loop body rows [] = Inr rows"
| "convert_loop body rows (r # records) =
     (case body r of
        Inl e \<Rightarrow> Inl e
      | Inr None \<Rightarrow> convert_loop body rows records
      | Inr (Some row) \<Rightarrow> convert_loop body (rows @ [row]) records)"

definition convert_trades ::
  "raw_record list \<Rightarrow> (string \<rightharpoonup> string) \<Rightarrow> error + tv_row list" where
  "convert_trades records symbol_exchange_map =
     convert_loop (trade_row symbol_exchange_map) [] records"

definition convert_cash_transactions :: "raw_record list \<Rightarrow> string \<Rightarrow> error + tv_row list" where
  "convert_cash_transactions records side_label = convert_loop cash_row [] records"

definition convert_dividends :: "raw_record list \<Rightarrow> error + tv_row list" where
  "convert_dividends records = convert_loop dividend_row [] records"

definition convert_taxes :: "raw_record list \<Rightarrow> error + tv_row list" where
  "convert_taxes records = convert_loop tax_row [] records"

section \<open>The file processor and the merger\<close>

definition section_records :: "(string \<rightharpoonup> raw_record list) \<Rightarrow> string \<Rightarrow> raw_record list" where
  "section_records secs name = (case secs name of None \<Rightarrow> [] | Some records \<Rightarrow> records)"

definition process_activity_statement ::
  "string list list \<Rightarrow> (string \<rightharpoonup> string) \<Rightarrow> error + tv_row list" where
  "process_activity_statement file symbol_exchange_map =
     and_then (parse_activity_statement file) (\<lambda>secs.
     and_then (convert_trades (section_records secs section_trades) symbol_exchange_map)
       (\<lambda>rows1.
     and_then (convert_cash_transactions (section_records secs section_deposits) [])
       (\<lambda>rows2.
     and_then (convert_dividends (section_records secs section_dividends)) (\<lambda>rows3.
     and_then (convert_taxes (section_records secs section_taxes)) (\<lambda>rows4.
       Inr (rows1 @ rows2 @ rows3 @ rows4))))))"

text \<open>\<open>for filepath in args.inputs: ...; all_rows.extend(rows)\<close>\<close>

fun collect_rows ::
  "(string \<rightharpoonup> string) \<Rightarrow> tv_row list \<Rightarrow> string list list list \<Rightarrow> error + tv_row list" where
  "collect_rows symbol_exchange_map all_rows [] = Inr all_rows"
| "collect_rows symbol_exchange_map all_rows (file # files) =
     (case process_activity_statement file symbol_exchange_map of
        Inl e \<Rightarrow> Inl e
      | Inr rows \<Rightarrow> collect_rows symbol_exchange_map (all_rows @ rows) files)"

text \<open>
  The identity key of a row, and \<open>==\<close> on two such tuples: the strings by value, the
  \<open>Qty\<close> floats by \<open>==\<close>. Every row holds a float object of its own (made by
  \<open>float\<close> or \<open>abs\<close> for that row), so two rows never share one and the identity
  shortcut of the tuple comparison never applies to a NaN.
\<close>

type_synonym row_key = "string \<times> string \<times> pyfloat \<times> string \<times> string"

definition key_of :: "tv_row \<Rightarrow> row_key" where
  "key_of r = (Symbol r, Side r, Qty r, Fill_Price r, Closing_Time r)"

definition key_eq :: "row_key \<Rightarrow> row_key \<Rightarrow> bool" where
  "key_eq k k' =
     (case (k, k') of
        ((symbol, side, qty, price, closing), (symbol', side', qty', price', closing')) \<Rightarrow>
          symbol = symbol' \<and> side = side' \<and> py_eq qty qty' \<and> price = price'
          \<and> closing = closing')"

text \<open>The deduplication loop of \<open>main\<close>; \<open>seen\<close> is the set of
  keys.\<close>

fun dedupe_rows :: "row_key set \<Rightarrow> tv_row list \<Rightarrow> tv_row list \<Rightarrow> tv_row list" where
  "dedupe_rows seen deduped [] = deduped"
| "dedupe_rows seen deduped (r # all_rows) =
     (if \<not> (\<exists>k \<in> seen. key_eq (key_of r) k)
      then dedupe_rows (insert (key_of r) seen) (deduped @ [r]) all_rows
      else dedupe_rows seen deduped all_rows)"

text \<open>
  \<open>deduped.sort(key=lambda r: r["Closing Time"] or "")\<close>: Python's sort is stable, and
  so is \<^const>\<open>sort_key\<close>; a stable sort has one result.
\<close>

definition sort_time :: "tv_row \<Rightarrow> string" where
  "sort_time r = (if Closing_Time r \<noteq> [] then Closing_Time r else [])"

definition merge_rows :: "tv_row list \<Rightarrow> tv_row list" where
  "merge_rows all_rows = sort_key sort_time (dedupe_rows {} [] all_rows)"

text \<open>The records that \<open>main\<close> hands to the CSV writer.\<close>

definition main_rows ::
  "string list list list \<Rightarrow> (string \<rightharpoonup> string) \<Rightarrow> error + tv_row list" where
  "main_rows inputs symbol_exchange_map =
     (case collect_rows symbol_exchange_map [] inputs of
        Inl e \<Rightarrow> Inl e
      | Inr all_rows \<Rightarrow> Inr (merge_rows all_rows))"

section \<open>Vocabulary of the properties\<close>

text \<open>The name given to the \<open>k\<close>-th occurrence of \<open>h\<close>, for
  \<open>k\<close> from 2 on.\<close>

definition suffixed :: "string \<Rightarrow> nat \<Rightarrow> string" where
  "suffixed h k = h @ ''_'' @ str_nat k"

text \<open>Position \<open>i\<close> holds the \<open>occurrence hs i\<close>-th occurrence of
  its name, counted from 1.\<close>

definition occurrence :: "string list \<Rightarrow> nat \<Rightarrow> nat" where
  "occurrence hs i = count_list (take (Suc i) hs) (hs ! i)"

definition rename1 :: "string list \<Rightarrow> string \<Rightarrow> string" where
  "rename1 pre h = (if count_list pre h = 0 then h else suffixed h (count_list pre h + 1))"

definition generated :: "string list \<Rightarrow> string set" where
  "generated hs = {suffixed h k | h k. h \<in> set hs \<and> 2 \<le> k \<and> k \<le> count_list hs h}"

definition digits_val :: "string \<Rightarrow> nat" where
  "digits_val cs = foldl (\<lambda>a c. 10 * a + digit_val c) 0 cs"


text \<open>The parser's cursor names a section that is registered.\<close>

definition state_ok :: "parser_state \<Rightarrow> bool" where
  "state_ok st = (case current_section st of None \<Rightarrow> True | Some s \<Rightarrow> s \<in> dom (sections st))"

text \<open>The two filters of the trades converter: the discriminator is \<open>Order\<close> and
  the asset class is the equities marker.\<close>

definition passes_trade_filters :: "raw_record \<Rightarrow> bool" where
  "passes_trade_filters r =
     (r ''DataDiscriminator'' = Some ''Order'' \<and> r field_asset_class = Some value_stock)"

text \<open>The row, if any, that a converter's loop body appends for a record.\<close>

definition emitted :: "(raw_record \<Rightarrow> error + tv_row option) \<Rightarrow> raw_record \<Rightarrow> tv_row option" where
  "emitted body r = (case body r of Inl e \<Rightarrow> None | Inr res \<Rightarrow> res)"

text \<open>A trades record on which the body of the loop raises nothing: the six fields it reads
  are present, the quantity parses, and the commission is blank or parses.\<close>

definition well_formed_trade :: "raw_record \<Rightarrow> bool" where
  "well_formed_trade r =
     (r field_symbol \<noteq> None \<and> r field_currency \<noteq> None \<and> r field_price \<noteq> None
      \<and> r field_datetime \<noteq> None
      \<and> (case r field_quantity of None \<Rightarrow> False | Some v \<Rightarrow> py_float v \<noteq> None)
      \<and> (case r field_commission of
            None \<Rightarrow> False
          | Some v \<Rightarrow> strip v = [] \<or> py_float v \<noteq> None))"

text \<open>The sign rule between a trades record and the row emitted for it.\<close>

definition trade_sign_rule :: "raw_record \<Rightarrow> tv_row \<Rightarrow> bool" where
  "trade_sign_rule r row =
     (case r field_quantity of
        None \<Rightarrow> False
      | Some v \<Rightarrow>
          (case py_float v of
             None \<Rightarrow> False
           | Some q \<Rightarrow>
               (py_gt0 q \<longrightarrow> Side row = ''Buy'') \<and> (py_lt0 q \<longrightarrow> Side row = ''Sell'')
               \<and> Qty row = py_abs q))"

text \<open>A header of the trades section and the record of a Data row under it, for the
  examples.\<close>

definition trades_header :: "string list" where
  "trades_header =
     [''DataDiscriminator'', field_asset_class, field_currency, field_symbol, field_datetime,
      field_quantity, field_price, field_commission]"

definition trade_record ::
  "string \<Rightarrow> string \<Rightarrow> string \<Rightarrow> string \<Rightarrow> string \<Rightarrow> string \<Rightarrow> string \<Rightarrow> string \<Rightarrow> raw_record" where
  "trade_record discriminator asset_class currency symbol datetime quantity price commission =
     [''DataDiscriminator'' \<mapsto> discriminator, field_asset_class \<mapsto> asset_class,
      field_currency \<mapsto> currency, field_symbol \<mapsto> symbol, field_datetime \<mapsto> datetime,
      field_quantity \<mapsto> quantity, field_price \<mapsto> price, field_commission \<mapsto> commission]"

text \<open>The quantity and the commission of a trades record, where present, raise nothing: the
  quantity parses, the commission is blank or parses.\<close>

definition numeric_fields_ok :: "raw_record \<Rightarrow> bool" where
  "numeric_fields_ok r =
     ((case r field_quantity of None \<Rightarrow> True | Some v \<Rightarrow> py_float v \<noteq> None)
      \<and> (case r field_commission of
            None \<Rightarrow> True
          | Some v \<Rightarrow> strip v = [] \<or> py_float v \<noteq> None))"

text \<open>The six fields that the trades converter reads by subscript.\<close>

definition trade_fields :: "string set" where
  "trade_fields =
     {field_symbol, field_currency, field_quantity, field_price, field_commission,
      field_datetime}"

text \<open>The fixed enumeration of sides.\<close>

definition sides :: "string set" where
  "sides = {''Buy'', ''Sell'', ''Deposit'', ''Withdrawal'', ''Dividend'', ''Taxes and fees''}"

text \<open>The amount text of a record of a cash section, and the two non-empty filters that the
  cash, dividend and tax converters share.\<close>

definition amount_text :: "raw_record \<Rightarrow> string" where
  "amount_text r = strip (get_or_empty r field_amount)"

definition eligible_amount :: "raw_record \<Rightarrow> bool" where
  "eligible_amount r = (strip (get_or_empty r field_description) \<noteq> [] \<and> amount_text r \<noteq> [])"

text \<open>A record that passes its converter's filters and whose quantity or amount is not a
  parsable number.\<close>

definition unparsable_quantity :: "raw_record \<Rightarrow> bool" where
  "unparsable_quantity r =
     (passes_trade_filters r
      \<and> (case r field_quantity of None \<Rightarrow> False | Some v \<Rightarrow> py_float v = None))"

definition unparsable_amount :: "raw_record \<Rightarrow> bool" where
  "unparsable_amount r = (eligible_amount r \<and> py_float (amount_text r) = None)"

text \<open>The quantity or the amount of the record parses to NaN.\<close>

definition parses_to_nan :: "raw_record \<Rightarrow> bool" where
  "parses_to_nan r =
     ((case r field_quantity of None \<Rightarrow> False | Some v \<Rightarrow> py_float v = Some NaN)
      \<or> py_float (amount_text r) = Some NaN)"

text \<open>Records of the cash sections and a file with one trades row, for the examples.\<close>

definition cash_record :: "string \<Rightarrow> string \<Rightarrow> string \<Rightarrow> raw_record" where
  "cash_record description amount settle_date =
     [field_description \<mapsto> description, field_amount \<mapsto> amount,
      field_settle_date \<mapsto> settle_date]"

definition dated_record :: "string \<Rightarrow> string \<Rightarrow> string \<Rightarrow> raw_record" where
  "dated_record description amount date =
     [field_description \<mapsto> description, field_amount \<mapsto> amount, field_date \<mapsto> date]"

definition trades_file :: "string \<Rightarrow> string \<Rightarrow> string list list" where
  "trades_file quantity commission =
     [section_trades # ''Header'' # trades_header,
      [section_trades, ''Data'', ''Order'', value_stock, ''USD'', ''AAPL'',
       ''2025-08-14, 11:32:43'', quantity, ''150.25'', commission]]"

text \<open>Two rows have the same identity key, as \<open>==\<close> on the key tuples decides
  it.\<close>

definition same_key :: "tv_row \<Rightarrow> tv_row \<Rightarrow> bool" where
  "same_key r r' = key_eq (key_of r) (key_of r')"


text \<open>The rows that are the first with their key, given the rows \<open>pre\<close> before
  the list.\<close>

fun firsts :: "tv_row list \<Rightarrow> tv_row list \<Rightarrow> tv_row list" where
  "firsts pre [] = []"
| "firsts pre (r # rs) =
     (if \<exists>p \<in> set pre. same_key r p then firsts (pre @ [r]) rs
      else r # firsts (pre @ [r]) rs)"


text \<open>Rows for the examples.\<close>

definition deposit_row :: "rat \<Rightarrow> string \<Rightarrow> tv_row" where
  "deposit_row amount closing =
     \<lparr>Symbol = ''$CASH'', Side = ''Deposit'', Qty = Fin amount, Fill_Price = [],
      Commission = Str [], Closing_Time = closing\<rparr>"

definition trade_example :: "string \<Rightarrow> pyfloat \<Rightarrow> pyval \<Rightarrow> tv_row" where
  "trade_example side qty commission =
     \<lparr>Symbol = ''NASDAQ:AAPL'', Side = side, Qty = qty, Fill_Price = ''150.25'',
      Commission = commission, Closing_Time = ''2025-08-14 11:32:43''\<rparr>"

section \<open>Header deduplication\<close>

lemma digit_cases:
  "d < 10 \<Longrightarrow>
   d = 0 \<or> d = 1 \<or> d = 2 \<or> d = 3 \<or> d = 4 \<or> d = 5 \<or> d = 6 \<or> d = 7 \<or> d = 8 \<or> d = (9::nat)"
  by arith

lemma digit_val_digit_char: "d < 10 \<Longrightarrow> digit_val (digit_char d) = d"
  using digit_cases [of d] by (auto simp: digit_val_def digit_char_def)

lemma digit_char_not_underscore: "d < 10 \<Longrightarrow> digit_char d \<noteq> CHR ''_''"
  using digit_cases [of d] by (auto simp: digit_char_def)

lemma str_nat_small: "n < 10 \<Longrightarrow> str_nat n = [digit_char n]"
  by simp

lemma str_nat_large:
  "\<not> n < 10 \<Longrightarrow> str_nat n = str_nat (n div 10) @ [digit_char (n mod 10)]"
  by (subst str_nat.simps) simp

declare str_nat.simps [simp del]

lemma digits_val_str_nat: "digits_val (str_nat n) = n"
proof (induction n rule: str_nat.induct)
  case (1 n)
  show ?case
  proof (cases "n < 10")
    case True
    then show ?thesis by (simp add: str_nat_small digits_val_def digit_val_digit_char)
  next
    case False
    with 1 have "digits_val (str_nat (n div 10)) = n div 10" by simp
    with False show ?thesis
      by (simp add: str_nat_large digits_val_def digit_val_digit_char)
  qed
qed

lemma str_nat_inj: "str_nat m = str_nat n \<Longrightarrow> m = n"
  by (metis digits_val_str_nat)

lemma underscore_notin_str_nat: "CHR ''_'' \<notin> set (str_nat n)"
proof (induction n rule: str_nat.induct)
  case (1 n)
  show ?case
  proof (cases "n < 10")
    case True
    then show ?thesis using digit_char_not_underscore [of n] by (simp add: str_nat_small)
  next
    case False
    with 1 have "CHR ''_'' \<notin> set (str_nat (n div 10))" by simp
    moreover have "digit_char (n mod 10) \<noteq> CHR ''_''"
      by (rule digit_char_not_underscore) simp
    ultimately show ?thesis using False by (simp add: str_nat_large)
  qed
qed

text \<open>A string splits in one way only at its last separator.\<close>

lemma split_at_last_separator:
  assumes "xs @ u # ds = xs' @ u # ds'" and "u \<notin> set ds" and "u \<notin> set ds'"
  shows "xs = xs' \<and> ds = ds'"
proof -
  from assms(1) have "rev (xs @ u # ds) = rev (xs' @ u # ds')" by simp
  then have eq: "rev ds @ u # rev xs = rev ds' @ u # rev xs'" by simp
  have "takeWhile (\<lambda>c. c \<noteq> u) (rev ds @ u # rev xs) = rev ds"
    using assms(2) by (subst takeWhile_append2) auto
  moreover have "takeWhile (\<lambda>c. c \<noteq> u) (rev ds' @ u # rev xs') = rev ds'"
    using assms(3) by (subst takeWhile_append2) auto
  ultimately have "rev ds = rev ds'" using eq by simp
  then have "ds = ds'" by simp
  with assms(1) show ?thesis by simp
qed

lemma suffixed_inj: "suffixed h k = suffixed h' k' \<Longrightarrow> h = h' \<and> k = k'"
  unfolding suffixed_def
  using split_at_last_separator [of h "CHR ''_''" "str_nat k" h' "str_nat k'"]
  by (auto simp: underscore_notin_str_nat dest: str_nat_inj)

text \<open>
  The loop invariant: \<open>seen_headers\<close> holds the number of occurrences of each name in the
  part \<open>pre\<close> of the header already read.
\<close>

lemma dedupe_headers_loop_spec:
  "(\<And>x. seen x = (if count_list pre x = 0 then None else Some (count_list pre x))) \<Longrightarrow>
   dedupe_headers_loop seen acc hs =
     acc @ map (\<lambda>i. rename1 (pre @ take i hs) (hs ! i)) [0..<length hs]"
proof (induction hs arbitrary: seen acc pre)
  case Nil
  then show ?case by simp
next
  case (Cons h hs)
  let ?seen' = "seen(h \<mapsto> count_list pre h + 1)"
  have inv: "\<And>x. ?seen' x =
      (if count_list (pre @ [h]) x = 0 then None else Some (count_list (pre @ [h]) x))"
    using Cons.prems by simp
  have step: "dedupe_headers_loop seen acc (h # hs) =
      dedupe_headers_loop ?seen' (acc @ [rename1 pre h]) hs"
    using Cons.prems [of h] by (simp add: rename1_def suffixed_def)
  have "dedupe_headers_loop ?seen' (acc @ [rename1 pre h]) hs =
      (acc @ [rename1 pre h]) @
        map (\<lambda>i. rename1 ((pre @ [h]) @ take i hs) (hs ! i)) [0..<length hs]"
    by (rule Cons.IH [OF inv])
  also have "\<dots> =
      acc @ map (\<lambda>i. rename1 (pre @ take i (h # hs)) ((h # hs) ! i)) [0..<length (h # hs)]"
    by (simp add: map_upt_Suc del: upt_Suc)
  finally show ?case using step by simp
qed

lemma dedupe_headers_map:
  "dedupe_headers hs = map (\<lambda>i. rename1 (take i hs) (hs ! i)) [0..<length hs]"
  unfolding dedupe_headers_def
  using dedupe_headers_loop_spec [of Map.empty "[]" "[]" hs] by simp

lemma dedupe_headers_snoc:
  "dedupe_headers (hs @ [h]) = dedupe_headers hs @ [rename1 hs h]"
  by (simp add: dedupe_headers_map nth_append)

lemma length_dedupe_headers: "length (dedupe_headers hs) = length hs"
  by (simp add: dedupe_headers_map)

lemma occurrence_alt:
  "i < length hs \<Longrightarrow> occurrence hs i = count_list (take i hs) (hs ! i) + 1"
  by (simp add: occurrence_def take_Suc_conv_app_nth)

lemma dedupe_headers_nth:
  "i < length hs \<Longrightarrow>
   dedupe_headers hs ! i =
     (if occurrence hs i = 1 then hs ! i else suffixed (hs ! i) (occurrence hs i))"
  by (simp add: dedupe_headers_map occurrence_alt rename1_def)

lemma generated_snoc:
  "generated (hs @ [h]) =
     generated hs \<union> (if h \<in> set hs then {suffixed h (count_list hs h + 1)} else {})"
proof (cases "h \<in> set hs")
  case True
  then have c1: "1 \<le> count_list hs h"
    using count_list_0_iff [of hs h] by arith
  have "x \<in> generated (hs @ [h]) \<longleftrightarrow>
      x \<in> generated hs \<or> x = suffixed h (count_list hs h + 1)" for x
  proof
    assume "x \<in> generated (hs @ [h])"
    then obtain h' k where x: "x = suffixed h' k" "h' \<in> set (hs @ [h])" "2 \<le> k"
        "k \<le> count_list (hs @ [h]) h'"
      unfolding generated_def by blast
    show "x \<in> generated hs \<or> x = suffixed h (count_list hs h + 1)"
    proof (cases "h' = h \<and> k = count_list hs h + 1")
      case True
      with x show ?thesis by simp
    next
      case False
      with x \<open>h \<in> set hs\<close> have "h' \<in> set hs \<and> k \<le> count_list hs h'"
        by (auto split: if_splits)
      with x show ?thesis unfolding generated_def by blast
    qed
  next
    assume "x \<in> generated hs \<or> x = suffixed h (count_list hs h + 1)"
    then show "x \<in> generated (hs @ [h])"
    proof
      assume "x \<in> generated hs"
      then obtain h' k where x: "x = suffixed h' k" "h' \<in> set hs" "2 \<le> k"
          "k \<le> count_list hs h'"
        unfolding generated_def by blast
      then have "h' \<in> set (hs @ [h]) \<and> k \<le> count_list (hs @ [h]) h'" by simp
      with x show ?thesis unfolding generated_def by blast
    next
      assume "x = suffixed h (count_list hs h + 1)"
      moreover have "h \<in> set (hs @ [h])" by simp
      moreover have "2 \<le> count_list hs h + 1" using c1 by simp
      moreover have "count_list hs h + 1 \<le> count_list (hs @ [h]) h" by simp
      ultimately show ?thesis unfolding generated_def by blast
    qed
  qed
  with True show ?thesis by auto
next
  case False
  then have c0: "count_list hs h = 0" by (simp add: count_list_0_iff)
  have "x \<in> generated (hs @ [h]) \<longleftrightarrow> x \<in> generated hs" for x
  proof
    assume "x \<in> generated (hs @ [h])"
    then obtain h' k where x: "x = suffixed h' k" "h' \<in> set (hs @ [h])" "2 \<le> k"
        "k \<le> count_list (hs @ [h]) h'"
      unfolding generated_def by blast
    with c0 have "h' \<in> set hs \<and> k \<le> count_list hs h'"
      by (auto split: if_splits)
    with x show "x \<in> generated hs" unfolding generated_def by blast
  next
    assume "x \<in> generated hs"
    then obtain h' k where x: "x = suffixed h' k" "h' \<in> set hs" "2 \<le> k"
        "k \<le> count_list hs h'"
      unfolding generated_def by blast
    then have "h' \<in> set (hs @ [h]) \<and> k \<le> count_list (hs @ [h]) h'" by simp
    with x show "x \<in> generated (hs @ [h])" unfolding generated_def by blast
  qed
  with False show ?thesis by auto
qed

lemma set_dedupe_headers: "set (dedupe_headers hs) = set hs \<union> generated hs"
proof (induction hs rule: rev_induct)
  case Nil
  then show ?case by (simp add: dedupe_headers_def generated_def)
next
  case (snoc h hs)
  show ?case
    using snoc.IH
    by (auto simp: dedupe_headers_snoc generated_snoc rename1_def count_list_0_iff)
qed

lemma fresh_suffix_not_generated: "suffixed h (count_list hs h + 1) \<notin> generated hs"
proof
  assume "suffixed h (count_list hs h + 1) \<in> generated hs"
  then obtain h' k where
    "suffixed h (count_list hs h + 1) = suffixed h' k" "k \<le> count_list hs h'"
    unfolding generated_def by blast
  then show False using suffixed_inj [of h "count_list hs h + 1" h' k] by auto
qed

lemma distinct_dedupe_headers_iff:
  "distinct (dedupe_headers hs) \<longleftrightarrow> set hs \<inter> generated hs = {}"
proof (induction hs rule: rev_induct)
  case Nil
  then show ?case by (simp add: dedupe_headers_def)
next
  case (snoc h hs)
  have d: "distinct (dedupe_headers (hs @ [h])) \<longleftrightarrow>
      set hs \<inter> generated hs = {} \<and> rename1 hs h \<notin> set hs \<union> generated hs"
    using snoc.IH by (simp add: dedupe_headers_snoc set_dedupe_headers)
  show ?case
  proof (cases "h \<in> set hs")
    case True
    then have "rename1 hs h = suffixed h (count_list hs h + 1)"
      by (simp add: rename1_def count_list_0_iff)
    moreover have "set (hs @ [h]) = set hs" using True by auto
    ultimately show ?thesis
      using d True fresh_suffix_not_generated [of h hs]
      by (auto simp: generated_snoc)
  next
    case False
    then have "rename1 hs h = h" by (simp add: rename1_def count_list_0_iff)
    then show ?thesis using d False by (auto simp: generated_snoc)
  qed
qed

lemma disjoint_generated_iff:
  "set hs \<inter> generated hs = {} \<longleftrightarrow>
   (\<forall>h \<in> set hs. \<forall>k. 2 \<le> k \<and> k \<le> count_list hs h \<longrightarrow> suffixed h k \<notin> set hs)"
  unfolding generated_def by blast

lemma str_nat_2: "str_nat 2 = ''2''"
  by (simp add: str_nat_small digit_char_def)

lemma str_nat_3: "str_nat 3 = ''3''"
  by (simp add: str_nat_small digit_char_def)

lemma dedupe_headers_triple: "dedupe_headers [a, a, a] = [a, a @ ''_2'', a @ ''_3'']"
proof -
  have "str_nat (Suc (Suc 0)) = ''2''"
    using str_nat_2 by (simp add: numeral_2_eq_2)
  moreover have "str_nat (Suc (Suc (Suc 0))) = ''3''"
    using str_nat_3 by (simp add: numeral_3_eq_3)
  ultimately show ?thesis
    by (simp add: dedupe_headers_def)
qed

lemma pad_data_full: "n \<le> length data \<Longrightarrow> pad_data n data = data"
  by (subst pad_data.simps) simp

declare pad_data.simps [simp del]

lemma make_record_triple:
  "make_record [a, a @ ''_2'', a @ ''_3''] [v1, v2, v3] =
     [a \<mapsto> v1, a @ ''_2'' \<mapsto> v2, a @ ''_3'' \<mapsto> v3]"
  by (simp add: make_record_def pad_data_full fun_eq_iff)

lemma str_nat_nonempty: "str_nat n \<noteq> []"
  by (cases "n < 10") (simp_all add: str_nat_small str_nat_large)

text \<open>
  What the renaming pass does on every header. It keeps the length and the order of the
  header; position \<open>i\<close> keeps its name when it is the first occurrence of that name and
  otherwise, as the \<open>k\<close>-th occurrence (\<open>k \<ge> 2\<close>), gets the suffix \<open>_k\<close>. The resulting
  names are pairwise distinct exactly when no name of the header equals another name of
  it followed by \<open>_k\<close> for one of that name's duplicate occurrences \<open>k\<close>. A header
  \<open>[A, A, A]\<close> becomes \<open>[A, A_2, A_3]\<close>, and a data row zipped against it exposes its
  first value under \<open>A\<close>, the second under \<open>A_2\<close>, the third under \<open>A_3\<close>.
\<close>

theorem header_deduplication:
  "length (dedupe_headers hs) = length hs
   \<and> (\<forall>i < length hs.
         1 \<le> occurrence hs i
         \<and> dedupe_headers hs ! i =
             (if occurrence hs i = 1 then hs ! i else suffixed (hs ! i) (occurrence hs i)))
   \<and> (distinct (dedupe_headers hs) \<longleftrightarrow>
        (\<forall>h \<in> set hs. \<forall>k. 2 \<le> k \<and> k \<le> count_list hs h \<longrightarrow> suffixed h k \<notin> set hs))
   \<and> dedupe_headers [a, a, a] = [a, a @ ''_2'', a @ ''_3'']
   \<and> make_record (dedupe_headers [a, a, a]) [v1, v2, v3] a = Some v1
   \<and> make_record (dedupe_headers [a, a, a]) [v1, v2, v3] (a @ ''_2'') = Some v2
   \<and> make_record (dedupe_headers [a, a, a]) [v1, v2, v3] (a @ ''_3'') = Some v3"
proof -
  have "\<forall>i < length hs.
         1 \<le> occurrence hs i
         \<and> dedupe_headers hs ! i =
             (if occurrence hs i = 1 then hs ! i else suffixed (hs ! i) (occurrence hs i))"
    by (simp add: dedupe_headers_nth occurrence_alt)
  moreover have "distinct (dedupe_headers hs) \<longleftrightarrow>
        (\<forall>h \<in> set hs. \<forall>k. 2 \<le> k \<and> k \<le> count_list hs h \<longrightarrow> suffixed h k \<notin> set hs)"
    by (simp only: distinct_dedupe_headers_iff disjoint_generated_iff)
  ultimately show ?thesis
    by (simp add: length_dedupe_headers dedupe_headers_triple make_record_triple)
qed

text \<open>The header \<open>[A, B, A, A]\<close> becomes \<open>[A, B, A_2, A_3]\<close>, with
  distinct names.\<close>

theorem header_deduplication_witness:
  "dedupe_headers [''A'', ''B'', ''A'', ''A''] ! 0 = ''A''
   \<and> dedupe_headers [''A'', ''B'', ''A'', ''A''] ! 2 = ''A_2''
   \<and> dedupe_headers [''A'', ''B'', ''A'', ''A''] ! 3 = ''A_3''
   \<and> distinct (dedupe_headers [''A'', ''B'', ''A'', ''A''])"
proof -
  let ?hs = "[''A'', ''B'', ''A'', ''A'']"
  note t = header_deduplication [of ?hs]
  have o0: "occurrence ?hs 0 = 1" by (simp add: occurrence_def)
  have o2: "occurrence ?hs 2 = 2" by (simp add: occurrence_def numeral_2_eq_2)
  have o3: "occurrence ?hs 3 = 3" by (simp add: occurrence_def numeral_3_eq_3)
  have long: "suffixed h k \<notin> set ?hs" for h k
  proof -
    have "str_nat k \<noteq> []" by (rule str_nat_nonempty)
    then have "1 \<le> length (str_nat k)" by (cases "str_nat k") simp_all
    then have "2 \<le> length (suffixed h k)" by (simp add: suffixed_def)
    then show ?thesis by auto
  qed
  from t have "\<forall>i<4. dedupe_headers ?hs ! i =
      (if occurrence ?hs i = 1 then ?hs ! i else suffixed (?hs ! i) (occurrence ?hs i))"
    by simp
  then have "dedupe_headers ?hs ! 0 = ''A''" "dedupe_headers ?hs ! 2 = suffixed ''A'' 2"
    "dedupe_headers ?hs ! 3 = suffixed ''A'' 3"
    using o0 o2 o3 by auto
  moreover from t long have "distinct (dedupe_headers ?hs)" by blast
  ultimately show ?thesis by (simp add: suffixed_def str_nat_2 str_nat_3)
qed

text \<open>
  Claim C1 at the header \<open>[A, A, A_2]\<close>. The pass renames the second \<open>A\<close> to \<open>A_2\<close>
  and leaves the literal \<open>A_2\<close> as it is, so the result \<open>[A, A_2, A_2]\<close> does not have
  pairwise distinct names, and the record of the data row \<open>[1, 2, 3]\<close> binds \<open>A_2\<close> to
  the third value only: the second value is overwritten, which the renaming is there to
  prevent.
\<close>

theorem header_deduplication_collision:
  "dedupe_headers [''A'', ''A'', ''A_2''] = [''A'', ''A_2'', ''A_2'']
   \<and> \<not> distinct (dedupe_headers [''A'', ''A'', ''A_2''])
   \<and> make_record (dedupe_headers [''A'', ''A'', ''A_2'']) [''1'', ''2'', ''3''] =
       [''A'' \<mapsto> ''1'', ''A_2'' \<mapsto> ''3'']"
proof -
  have "str_nat (Suc (Suc 0)) = ''2''"
    using str_nat_2 by (simp add: numeral_2_eq_2)
  then have d: "dedupe_headers [''A'', ''A'', ''A_2''] = [''A'', ''A_2'', ''A_2'']"
    by (simp add: dedupe_headers_def)
  have "make_record [''A'', ''A_2'', ''A_2''] [''1'', ''2'', ''3''] =
       [''A'' \<mapsto> ''1'', ''A_2'' \<mapsto> ''3'']"
    by (simp add: make_record_def pad_data_full)
  with d show ?thesis by simp
qed

section \<open>Raw records\<close>












lemma parse_row_ok:
  assumes "state_ok st"
  shows "\<exists>st'. parse_row st row = Inr st' \<and> state_ok st'"
proof (cases "length row < 2")
  case True
  with assms show ?thesis by (simp add: parse_row_def)
next
  case long: False
  show ?thesis
  proof (cases "strip (row ! 1) = ''Header''")
    case True
    with long show ?thesis
      by (simp add: parse_row_def state_ok_def Let_def)
  next
    case False
    show ?thesis
    proof (cases "strip (row ! 1) = ''Data'' \<and> current_section st = Some (strip (row ! 0))
        \<and> current_headers st \<noteq> None \<and> current_headers st \<noteq> Some []")
      case True
      with assms obtain records where "sections st (strip (row ! 0)) = Some records"
        by (auto simp: state_ok_def)
      with True long False show ?thesis
        by (simp add: parse_row_def state_ok_def Let_def)
    next
      case other: False
      with long False assms show ?thesis
        by (auto simp: parse_row_def Let_def)
    qed
  qed
qed

lemma parse_rows_ok:
  "state_ok st \<Longrightarrow> \<exists>st'. parse_rows st rows = Inr st' \<and> state_ok st'"
proof (induction rows arbitrary: st)
  case Nil
  then show ?case by simp
next
  case (Cons row rows)
  from parse_row_ok [OF Cons.prems, of row] obtain st1 where
    "parse_row st row = Inr st1" "state_ok st1" by blast
  with Cons.IH [of st1] show ?case by simp
qed

lemma parse_activity_statement_returns: "\<exists>secs. parse_activity_statement rows = Inr secs"
proof -
  have "state_ok initial_state" by (simp add: state_ok_def initial_state_def)
  from parse_rows_ok [OF this, of rows] show ?thesis
    by (auto simp: parse_activity_statement_def)
qed


lemma strip_Data: "strip ''Data'' = ''Data''"
  by code_simp



section \<open>The trades converter\<close>

lemma convert_loop_acc:
  "convert_loop body rows records =
     (case convert_loop body [] records of Inl e \<Rightarrow> Inl e | Inr out \<Rightarrow> Inr (rows @ out))"
proof (induction records arbitrary: rows)
  case Nil
  then show ?case by simp
next
  case (Cons r records)
  show ?case
  proof (cases "body r")
    case (Inl e)
    then show ?thesis by simp
  next
    case (Inr res)
    show ?thesis
    proof (cases res)
      case None
      with Inr Cons.IH [of rows] show ?thesis by simp
    next
      case (Some row)
      with Inr Cons.IH [of "rows @ [row]"] Cons.IH [of "[row]"] show ?thesis
        by (simp split: sum.splits)
    qed
  qed
qed

lemma convert_loop_Cons:
  "convert_loop body [] (r # records) =
     (case body r of
        Inl e \<Rightarrow> Inl e
      | Inr res \<Rightarrow>
          (case convert_loop body [] records of
             Inl e \<Rightarrow> Inl e
           | Inr out \<Rightarrow> Inr ((case res of None \<Rightarrow> [] | Some row \<Rightarrow> [row]) @ out)))"
proof (cases "body r")
  case (Inl e)
  then show ?thesis by simp
next
  case (Inr res)
  then show ?thesis
    using convert_loop_acc [of body "[the res]" records]
    by (cases res) (simp_all split: sum.splits)
qed

lemma convert_loop_returns:
  "convert_loop body [] records = Inr out \<Longrightarrow>
   (\<forall>r \<in> set records. \<exists>res. body r = Inr res) \<and> out = List.map_filter (emitted body) records"
proof (induction records arbitrary: out)
  case Nil
  then show ?case by (simp add: List.map_filter_simps)
next
  case (Cons r records)
  from Cons.prems obtain res out' where
    r: "body r = Inr res" and rest: "convert_loop body [] records = Inr out'"
    and out: "out = (case res of None \<Rightarrow> [] | Some row \<Rightarrow> [row]) @ out'"
    by (auto simp: convert_loop_Cons simp del: convert_loop.simps(2) split: sum.splits)
  from Cons.IH [OF rest] r out show ?case
    by (auto simp: List.map_filter_simps emitted_def split: option.splits)
qed

lemma convert_loop_total:
  "(\<forall>r \<in> set records. \<exists>res. body r = Inr res) \<Longrightarrow>
   convert_loop body [] records = Inr (List.map_filter (emitted body) records)"
proof (induction records)
  case Nil
  then show ?case by (simp add: List.map_filter_simps)
next
  case (Cons r records)
  then obtain res where "body r = Inr res" by auto
  with Cons show ?case
    by (auto simp: convert_loop_Cons List.map_filter_simps emitted_def
        simp del: convert_loop.simps(2) split: option.splits)
qed

lemma convert_loop_raises:
  "r \<in> set records \<Longrightarrow> body r = Inl e \<Longrightarrow> \<exists>e'. convert_loop body [] records = Inl e'"
proof (induction records)
  case Nil
  then show ?case by simp
next
  case (Cons x records)
  then show ?case
    by (auto simp: convert_loop_Cons simp del: convert_loop.simps(2) split: sum.splits)
qed

lemma convert_loop_first_error:
  "(\<forall>r \<in> set records. body r = Inl e \<or> (\<exists>res. body r = Inr res)) \<Longrightarrow>
   r \<in> set records \<Longrightarrow> body r = Inl e \<Longrightarrow> convert_loop body [] records = Inl e"
proof (induction records)
  case Nil
  then show ?case by simp
next
  case (Cons x records)
  then show ?case
    by (auto simp: convert_loop_Cons simp del: convert_loop.simps(2) split: sum.splits)
qed

lemma and_then_Inr: "and_then m f = Inr y \<longleftrightarrow> (\<exists>x. m = Inr x \<and> f x = Inr y)"
  by (cases m) (simp_all add: and_then_def)

lemma and_then_Inl: "and_then m f = Inl e \<longleftrightarrow> m = Inl e \<or> (\<exists>x. m = Inr x \<and> f x = Inl e)"
  by (cases m) (simp_all add: and_then_def)

lemma item_Inr: "item r k = Inr v \<longleftrightarrow> r k = Some v"
  by (simp add: item_def split: option.splits)

lemma item_Inl: "item r k = Inl e \<longleftrightarrow> r k = None \<and> e = KeyError"
  by (auto simp: item_def split: option.splits)

lemma to_float_Inr: "to_float s = Inr x \<longleftrightarrow> py_float s = Some x"
  by (simp add: to_float_def split: option.splits)

lemma to_float_Inl: "to_float s = Inl e \<longleftrightarrow> py_float s = None \<and> e = ValueError"
  by (auto simp: to_float_def split: option.splits)

lemma trade_row_skip: "\<not> passes_trade_filters r \<Longrightarrow> trade_row m r = Inr None"
  by (auto simp: trade_row_def passes_trade_filters_def)

lemma trade_row_emits:
  assumes "passes_trade_filters r" and "trade_row m r = Inr res"
  shows "\<exists>v_symbol v_currency v_quantity qty_raw v_price v_commission commission v_datetime.
      r field_symbol = Some v_symbol \<and> r field_currency = Some v_currency
      \<and> r field_quantity = Some v_quantity \<and> py_float v_quantity = Some qty_raw
      \<and> r field_price = Some v_price \<and> r field_commission = Some v_commission
      \<and> (if strip v_commission \<noteq> []
          then \<exists>c. py_float v_commission = Some c \<and> commission = Num (py_abs c)
          else commission = Str [])
      \<and> r field_datetime = Some v_datetime
      \<and> res = Some \<lparr>Symbol = get_tv_symbol (strip v_symbol) (strip v_currency) m,
                     Side = (if py_gt0 qty_raw then ''Buy'' else ''Sell''),
                     Qty = py_abs qty_raw,
                     Fill_Price = strip v_price,
                     Commission = commission,
                     Closing_Time = py_replace '', '' '' '' (strip v_datetime)\<rparr>"
proof -
  from assms have "r ''DataDiscriminator'' = Some ''Order''" "r field_asset_class = Some value_stock"
    by (simp_all add: passes_trade_filters_def)
  with assms(2) show ?thesis
    unfolding trade_row_def
    by (simp add: and_then_Inr item_Inr to_float_Inr split: if_splits) blast
qed

lemma trade_row_well_formed:
  assumes "passes_trade_filters r" and "well_formed_trade r"
  shows "\<exists>row. trade_row m r = Inr (Some row)"
proof -
  from assms(1) have f: "r ''DataDiscriminator'' = Some ''Order''"
      "r field_asset_class = Some value_stock"
    by (simp_all add: passes_trade_filters_def)
  from assms(2) obtain vs vc vq q vp vcm vd where
    v: "r field_symbol = Some vs" "r field_currency = Some vc" "r field_quantity = Some vq"
       "py_float vq = Some q" "r field_price = Some vp" "r field_commission = Some vcm"
       "strip vcm = [] \<or> py_float vcm \<noteq> None" "r field_datetime = Some vd"
    by (auto simp: well_formed_trade_def split: option.splits)
  show ?thesis
  proof (cases "strip vcm = []")
    case True
    with f v show ?thesis
      by (simp add: trade_row_def and_then_def item_def to_float_def)
  next
    case False
    with v obtain c where "py_float vcm = Some c" by auto
    with False f v show ?thesis
      by (simp add: trade_row_def and_then_def item_def to_float_def)
  qed
qed

lemma trade_row_returns_iff:
  "(\<exists>res. trade_row m r = Inr res) \<longleftrightarrow> (passes_trade_filters r \<longrightarrow> well_formed_trade r)"
proof (cases "passes_trade_filters r")
  case False
  then show ?thesis by (simp add: trade_row_skip)
next
  case True
  show ?thesis
  proof
    assume "\<exists>res. trade_row m r = Inr res"
    then obtain res where "trade_row m r = Inr res" ..
    from trade_row_emits [OF True this] show "passes_trade_filters r \<longrightarrow> well_formed_trade r"
      by (auto simp: well_formed_trade_def split: if_splits)
  next
    assume "passes_trade_filters r \<longrightarrow> well_formed_trade r"
    with True trade_row_well_formed [of r m] show "\<exists>res. trade_row m r = Inr res" by blast
  qed
qed

lemma trade_row_sign_rule:
  assumes "passes_trade_filters r" and "trade_row m r = Inr res"
  shows "\<exists>row. res = Some row \<and> trade_sign_rule r row"
proof -
  from trade_row_emits [OF assms] obtain v q row where
    "r field_quantity = Some v" "py_float v = Some q" "res = Some row"
    "Side row = (if py_gt0 q then ''Buy'' else ''Sell'')" "Qty row = py_abs q"
    by force
  moreover have "py_lt0 q \<Longrightarrow> \<not> py_gt0 q"
    by (cases q) (simp_all add: py_lt0_def py_gt0_def)
  ultimately show ?thesis by (auto simp: trade_sign_rule_def)
qed

lemma emitted_trade_rows:
  "\<forall>r \<in> set records. \<exists>res. trade_row m r = Inr res \<Longrightarrow>
   list_all2 trade_sign_rule (filter passes_trade_filters records)
     (List.map_filter (emitted (trade_row m)) records)"
proof (induction records)
  case Nil
  then show ?case by (simp add: List.map_filter_simps)
next
  case (Cons r records)
  then obtain res where res: "trade_row m r = Inr res" by auto
  from Cons have IH: "list_all2 trade_sign_rule (filter passes_trade_filters records)
     (List.map_filter (emitted (trade_row m)) records)" by simp
  from res have e: "emitted (trade_row m) r = res" by (simp add: emitted_def)
  show ?case
  proof (cases "passes_trade_filters r")
    case True
    from trade_row_sign_rule [OF True res] obtain row where
      "res = Some row" "trade_sign_rule r row" by blast
    with True e IH show ?thesis
      by (simp add: List.map_filter_simps)
  next
    case False
    with res have "res = None" by (simp add: trade_row_skip)
    with False e IH show ?thesis
      by (simp add: List.map_filter_simps)
  qed
qed

text \<open>
Claim C3. When the trades converter returns, its rows are, in order, one row for each
  input record that passes both filters and none for any other record; in each row a
  positive quantity gives the side \<open>Buy\<close>, a negative one \<open>Sell\<close>, and \<open>Qty\<close> is the
  absolute value of the quantity. The converter returns exactly when every record that
  passes the filters is well formed.
\<close>

theorem trades_filter_and_sign:
  "(convert_trades records m = Inr rows \<longrightarrow>
      list_all2 trade_sign_rule (filter passes_trade_filters records) rows)
   \<and> ((\<exists>rows. convert_trades records m = Inr rows) \<longleftrightarrow>
        (\<forall>r \<in> set records. passes_trade_filters r \<longrightarrow> well_formed_trade r))"
proof -
  have "list_all2 trade_sign_rule (filter passes_trade_filters records) rows"
    if "convert_trades records m = Inr rows"
  proof -
    from that convert_loop_returns [of "trade_row m" records rows]
    have "\<forall>r \<in> set records. \<exists>res. trade_row m r = Inr res"
      and "rows = List.map_filter (emitted (trade_row m)) records"
      by (simp_all add: convert_trades_def)
    with emitted_trade_rows [of records m] show ?thesis by simp
  qed
  moreover have "(\<exists>rows. convert_trades records m = Inr rows) \<longleftrightarrow>
        (\<forall>r \<in> set records. passes_trade_filters r \<longrightarrow> well_formed_trade r)"
  proof
    assume "\<exists>rows. convert_trades records m = Inr rows"
    then obtain rows where "convert_loop (trade_row m) [] records = Inr rows"
      by (auto simp: convert_trades_def)
    from convert_loop_returns [OF this]
    show "\<forall>r \<in> set records. passes_trade_filters r \<longrightarrow> well_formed_trade r"
      using trade_row_returns_iff [of m] by blast
  next
    assume "\<forall>r \<in> set records. passes_trade_filters r \<longrightarrow> well_formed_trade r"
    then have "\<forall>r \<in> set records. \<exists>res. trade_row m r = Inr res"
      using trade_row_returns_iff [of m] by blast
    from convert_loop_total [OF this] show "\<exists>rows. convert_trades records m = Inr rows"
      by (simp add: convert_trades_def)
  qed
  ultimately show ?thesis by blast
qed

lemmas field_defs =
  field_asset_class_def field_symbol_def field_currency_def field_quantity_def field_price_def
  field_commission_def field_datetime_def field_description_def field_amount_def
  field_settle_date_def field_date_def

lemma trade_record_fields:
  "trade_record d a cu sy dt q p c ''DataDiscriminator'' = Some d"
  "trade_record d a cu sy dt q p c field_asset_class = Some a"
  "trade_record d a cu sy dt q p c field_currency = Some cu"
  "trade_record d a cu sy dt q p c field_symbol = Some sy"
  "trade_record d a cu sy dt q p c field_datetime = Some dt"
  "trade_record d a cu sy dt q p c field_quantity = Some q"
  "trade_record d a cu sy dt q p c field_price = Some p"
  "trade_record d a cu sy dt q p c field_commission = Some c"
  by (simp_all add: trade_record_def field_defs)

lemma passes_trade_record:
  "passes_trade_filters (trade_record d a cu sy dt q p c) \<longleftrightarrow> d = ''Order'' \<and> a = value_stock"
  by (simp add: passes_trade_filters_def trade_record_fields)

lemma trade_row_trade_record:
  "trade_row m (trade_record ''Order'' value_stock cu sy dt q p c) =
     and_then (to_float q) (\<lambda>qty_raw.
     and_then (if strip c \<noteq> [] then and_then (to_float c) (\<lambda>x. Inr (Num (py_abs x)))
               else Inr (Str [])) (\<lambda>commission.
       Inr (Some \<lparr>Symbol = get_tv_symbol (strip sy) (strip cu) m,
                  Side = (if py_gt0 qty_raw then ''Buy'' else ''Sell''),
                  Qty = py_abs qty_raw,
                  Fill_Price = strip p,
                  Commission = commission,
                  Closing_Time = py_replace '', '' '' '' (strip dt)\<rparr>)))"
  by (simp add: trade_row_def trade_record_fields item_def and_then_def)

lemmas round_double_defs =
  round_double_def round_at_def scaled_def round_half_even_def binary_exponent_def

lemmas parse_number_defs =
  parse_number_def parse_mantissa_def digitpart_def is_digit_def digit_val_def
  nat_of_digits_def parse_exponent_def

lemma py_float_decimal:
  assumes "strip_ascii (to_ascii s) = t" and "take_sign t = (neg, u)" and "map lower_ascii u = l"
    and "l \<noteq> ''inf''" and "l \<noteq> ''infinity''" and "l \<noteq> ''nan''"
    and "parse_number u = Some (mant, e)"
    and "(if 0 \<le> e then round_double (mant * 10 ^ nat e) 1
          else round_double mant (10 ^ nat (- e))) = x"
  shows "py_float s = Some (if neg then negate x else x)"
  using assms by (simp add: py_float_def Let_def)

lemma py_float_invalid:
  assumes "strip_ascii (to_ascii s) = t" and "take_sign t = (neg, u)" and "map lower_ascii u = l"
    and "l \<noteq> ''inf''" and "l \<noteq> ''infinity''" and "l \<noteq> ''nan''"
    and "parse_number u = None"
  shows "py_float s = None"
  using assms by (simp add: py_float_def Let_def)

lemma py_float_minus_50: "py_float ''-50'' = Some (Fin (- 50))"
proof -
  have "py_float ''-50'' = Some (if True then negate (Fin 50) else Fin 50)"
  proof (rule py_float_decimal)
    show "strip_ascii (to_ascii ''-50'') = ''-50''" by (simp add: strip_ascii_def ascii_space_def)
    show "take_sign ''-50'' = (True, ''50'')" by (simp add: take_sign_def)
    show "map lower_ascii ''50'' = ''50''" by code_simp
    show "parse_number ''50'' = Some (50, 0)" by (simp add: parse_number_defs)
    show "(if (0::int) \<le> 0 then round_double (50 * 10 ^ nat 0) 1
          else round_double 50 (10 ^ nat (- 0))) = Fin 50"
      by (simp add: round_double_defs)
  qed simp_all
  then show ?thesis by (simp add: negate_def)
qed

lemma py_float_50: "py_float ''50'' = Some (Fin 50)"
proof -
  have "py_float ''50'' = Some (if False then negate (Fin 50) else Fin 50)"
  proof (rule py_float_decimal)
    show "strip_ascii (to_ascii ''50'') = ''50''" by (simp add: strip_ascii_def ascii_space_def)
    show "take_sign ''50'' = (False, ''50'')" by (simp add: take_sign_def)
    show "map lower_ascii ''50'' = ''50''" by code_simp
    show "parse_number ''50'' = Some (50, 0)" by (simp add: parse_number_defs)
    show "(if (0::int) \<le> 0 then round_double (50 * 10 ^ nat 0) 1
          else round_double 50 (10 ^ nat (- 0))) = Fin 50"
      by (simp add: round_double_defs)
  qed simp_all
  then show ?thesis by simp
qed

lemma py_float_0: "py_float ''0'' = Some (Fin 0)"
proof -
  have "py_float ''0'' = Some (if False then negate (Fin 0) else Fin 0)"
  proof (rule py_float_decimal)
    show "strip_ascii (to_ascii ''0'') = ''0''" by (simp add: strip_ascii_def ascii_space_def)
    show "take_sign ''0'' = (False, ''0'')" by (simp add: take_sign_def)
    show "map lower_ascii ''0'' = ''0''" by code_simp
    show "parse_number ''0'' = Some (0, 0)" by (simp add: parse_number_defs)
    show "(if (0::int) \<le> 0 then round_double (0 * 10 ^ nat 0) 1
          else round_double 0 (10 ^ nat (- 0))) = Fin 0"
      by (simp add: round_double_defs)
  qed simp_all
  then show ?thesis by simp
qed

lemma py_float_nan: "py_float ''nan'' = Some NaN"
proof -
  have "strip_ascii (to_ascii ''nan'') = ''nan''" by (simp add: strip_ascii_def ascii_space_def)
  moreover have "take_sign ''nan'' = (False, ''nan'')" by (simp add: take_sign_def)
  moreover have "map lower_ascii ''nan'' = ''nan''" by code_simp
  ultimately show ?thesis by (simp add: py_float_def)
qed

lemma py_float_abc: "py_float ''abc'' = None"
proof (rule py_float_invalid)
  show "strip_ascii (to_ascii ''abc'') = ''abc''" by (simp add: strip_ascii_def ascii_space_def)
  show "take_sign ''abc'' = (False, ''abc'')" by (simp add: take_sign_def)
  show "map lower_ascii ''abc'' = ''abc''" by code_simp
  show "parse_number ''abc'' = None" by (simp add: parse_number_defs)
qed simp_all

lemma strip_empty: "strip [] = []"
  by code_simp

lemma strip_AAPL: "strip ''AAPL'' = ''AAPL''"
  by code_simp

lemma strip_USD: "strip ''USD'' = ''USD''"
  by code_simp

lemma strip_price: "strip ''150.25'' = ''150.25''"
  by code_simp

lemma strip_datetime: "strip ''2025-08-14, 11:32:43'' = ''2025-08-14, 11:32:43''"
  by code_simp

lemma replace_datetime: "py_replace '', '' '' '' ''2025-08-14, 11:32:43'' = ''2025-08-14 11:32:43''"
  by code_simp

lemmas example_strings =
  strip_empty strip_AAPL strip_USD strip_price strip_datetime replace_datetime

lemma trade_row_example:
  "py_float q = Some x \<Longrightarrow>
   trade_row Map.empty
     (trade_record ''Order'' value_stock ''USD'' ''AAPL'' ''2025-08-14, 11:32:43'' q ''150.25'' []) =
   Inr (Some \<lparr>Symbol = ''NASDAQ:AAPL'', Side = (if py_gt0 x then ''Buy'' else ''Sell''),
              Qty = py_abs x, Fill_Price = ''150.25'', Commission = Str [],
              Closing_Time = ''2025-08-14 11:32:43''\<rparr>)"
  by (simp add: trade_row_trade_record to_float_def and_then_def example_strings
      get_tv_symbol_def)

text \<open>
Three records: quantity \<open>-50\<close> gives \<open>Sell\<close> with \<open>Qty\<close> 50, a summary row is skipped,
  quantity \<open>50\<close> gives \<open>Buy\<close> with \<open>Qty\<close> 50.
\<close>

theorem trades_filter_and_sign_witness:
  "convert_trades
     [trade_record ''Order'' value_stock ''USD'' ''AAPL'' ''2025-08-14, 11:32:43'' ''-50'' ''150.25'' [],
      trade_record ''SubTotal'' value_stock ''USD'' ''AAPL'' [] ''0'' [] [],
      trade_record ''Order'' value_stock ''USD'' ''AAPL'' ''2025-08-14, 11:32:43'' ''50'' ''150.25'' []]
     Map.empty =
   Inr [\<lparr>Symbol = ''NASDAQ:AAPL'', Side = ''Sell'', Qty = Fin 50, Fill_Price = ''150.25'',
          Commission = Str [], Closing_Time = ''2025-08-14 11:32:43''\<rparr>,
        \<lparr>Symbol = ''NASDAQ:AAPL'', Side = ''Buy'', Qty = Fin 50, Fill_Price = ''150.25'',
          Commission = Str [], Closing_Time = ''2025-08-14 11:32:43''\<rparr>]
   \<and> list_all2 trade_sign_rule
        [trade_record ''Order'' value_stock ''USD'' ''AAPL'' ''2025-08-14, 11:32:43'' ''-50'' ''150.25'' [],
         trade_record ''Order'' value_stock ''USD'' ''AAPL'' ''2025-08-14, 11:32:43'' ''50'' ''150.25'' []]
        [\<lparr>Symbol = ''NASDAQ:AAPL'', Side = ''Sell'', Qty = Fin 50, Fill_Price = ''150.25'',
           Commission = Str [], Closing_Time = ''2025-08-14 11:32:43''\<rparr>,
         \<lparr>Symbol = ''NASDAQ:AAPL'', Side = ''Buy'', Qty = Fin 50, Fill_Price = ''150.25'',
           Commission = Str [], Closing_Time = ''2025-08-14 11:32:43''\<rparr>]"
proof -
  let ?sell = "trade_record ''Order'' value_stock ''USD'' ''AAPL'' ''2025-08-14, 11:32:43''
    ''-50'' ''150.25'' []"
  let ?skip = "trade_record ''SubTotal'' value_stock ''USD'' ''AAPL'' [] ''0'' [] []"
  let ?buy = "trade_record ''Order'' value_stock ''USD'' ''AAPL'' ''2025-08-14, 11:32:43''
    ''50'' ''150.25'' []"
  let ?rows = "[\<lparr>Symbol = ''NASDAQ:AAPL'', Side = ''Sell'', Qty = Fin 50, Fill_Price = ''150.25'',
          Commission = Str [], Closing_Time = ''2025-08-14 11:32:43''\<rparr>,
        \<lparr>Symbol = ''NASDAQ:AAPL'', Side = ''Buy'', Qty = Fin 50, Fill_Price = ''150.25'',
          Commission = Str [], Closing_Time = ''2025-08-14 11:32:43''\<rparr>]"
  have skip: "trade_row Map.empty ?skip = Inr None"
    by (rule trade_row_skip) (simp add: passes_trade_record)
  have run: "convert_trades [?sell, ?skip, ?buy] Map.empty = Inr ?rows"
    using trade_row_example [OF py_float_minus_50] trade_row_example [OF py_float_50] skip
    by (simp add: convert_trades_def py_gt0_def py_abs_def)
  have passing: "filter passes_trade_filters [?sell, ?skip, ?buy] = [?sell, ?buy]"
    by (simp add: passes_trade_record)
  from trades_filter_and_sign [of "[?sell, ?skip, ?buy]" Map.empty ?rows] run passing
  show ?thesis by simp
qed

section \<open>Zero quantities and missing fields\<close>

lemma trade_row_raises_cases:
  assumes "trade_row m r = Inl e"
  shows "passes_trade_filters r
    \<and> ((e = KeyError \<and> (\<exists>k \<in> trade_fields. r k = None))
       \<or> (e = ValueError \<and> \<not> numeric_fields_ok r))"
proof -
  from assms have p: "passes_trade_filters r"
    using trade_row_skip [of r m] by auto
  then have f: "r ''DataDiscriminator'' = Some ''Order''" "r field_asset_class = Some value_stock"
    by (simp_all add: passes_trade_filters_def)
  from assms f have "(e = KeyError \<and> (\<exists>k \<in> trade_fields. r k = None))
       \<or> (e = ValueError \<and> \<not> numeric_fields_ok r)"
    unfolding trade_row_def trade_fields_def numeric_fields_ok_def
    by (auto simp: and_then_Inl item_Inl item_Inr to_float_Inl to_float_Inr split: if_splits)
  with p show ?thesis by simp
qed

lemma trade_row_missing_field:
  assumes "passes_trade_filters r" and "k \<in> trade_fields" and "r k = None"
  shows "\<exists>e. trade_row m r = Inl e"
proof (cases "trade_row m r")
  case (Inl e)
  then show ?thesis by simp
next
  case (Inr res)
  from trade_row_emits [OF assms(1) Inr] assms(2,3) show ?thesis
    by (auto simp: trade_fields_def)
qed

text \<open>
Claim C9. A trades record that passes both filters and whose quantity parses to zero is
  not skipped: whenever the loop body returns for it, it emits a row with the side
  \<open>Sell\<close> and \<open>Qty\<close> 0, and it returns when the record is well formed.
\<close>

theorem zero_quantity_is_sell:
  "passes_trade_filters r \<Longrightarrow> r field_quantity = Some v \<Longrightarrow> py_float v = Some (Fin 0) \<Longrightarrow>
   trade_row m r \<noteq> Inr None
   \<and> (\<forall>res. trade_row m r = Inr res \<longrightarrow>
         (\<exists>row. res = Some row \<and> Side row = ''Sell'' \<and> Qty row = Fin 0))
   \<and> (well_formed_trade r \<longrightarrow>
         (\<exists>row. convert_trades [r] m = Inr [row] \<and> Side row = ''Sell'' \<and> Qty row = Fin 0))"
proof -
  assume p: "passes_trade_filters r" and v: "r field_quantity = Some v"
    and z: "py_float v = Some (Fin 0)"
  have emitted: "\<exists>row. res = Some row \<and> Side row = ''Sell'' \<and> Qty row = Fin 0"
    if "trade_row m r = Inr res" for res
    using trade_row_emits [OF p that] v z
    by (auto simp: py_gt0_def py_abs_def)
  then have "trade_row m r \<noteq> Inr None" by force
  moreover have "\<exists>row. convert_trades [r] m = Inr [row] \<and> Side row = ''Sell'' \<and> Qty row = Fin 0"
    if "well_formed_trade r"
  proof -
    from trade_row_well_formed [OF p that] obtain row where
      row: "trade_row m r = Inr (Some row)" by blast
    from emitted [OF row] have "Side row = ''Sell'' \<and> Qty row = Fin 0" by simp
    with row show ?thesis by (simp add: convert_trades_def)
  qed
  ultimately show ?thesis using emitted by blast
qed

text \<open>
A well-formed order with the quantity \<open>0\<close>.
\<close>

theorem zero_quantity_is_sell_witness:
  "convert_trades
     [trade_record ''Order'' value_stock ''USD'' ''AAPL'' ''2025-08-14, 11:32:43'' ''0'' ''150.25'' []]
     Map.empty =
   Inr [\<lparr>Symbol = ''NASDAQ:AAPL'', Side = ''Sell'', Qty = Fin 0, Fill_Price = ''150.25'',
          Commission = Str [], Closing_Time = ''2025-08-14 11:32:43''\<rparr>]"
proof -
  let ?r = "trade_record ''Order'' value_stock ''USD'' ''AAPL'' ''2025-08-14, 11:32:43''
    ''0'' ''150.25'' []"
  have p: "passes_trade_filters ?r" by (simp add: passes_trade_record)
  have q: "?r field_quantity = Some ''0''" by (simp add: trade_record_fields)
  have w: "well_formed_trade ?r"
    by (simp add: well_formed_trade_def trade_record_fields py_float_0 strip_empty)
  from zero_quantity_is_sell [OF p q py_float_0, of Map.empty] w
  obtain row where "convert_trades [?r] Map.empty = Inr [row]"
      "Side row = ''Sell''" "Qty row = Fin 0"
    by blast
  moreover have "trade_row Map.empty ?r =
      Inr (Some \<lparr>Symbol = ''NASDAQ:AAPL'', Side = (if py_gt0 (Fin 0) then ''Buy'' else ''Sell''),
              Qty = py_abs (Fin 0), Fill_Price = ''150.25'', Commission = Str [],
              Closing_Time = ''2025-08-14 11:32:43''\<rparr>)"
    by (rule trade_row_example [OF py_float_0])
  ultimately show ?thesis by (auto simp: convert_trades_def py_gt0_def py_abs_def)
qed

text \<open>
Claim C10. A trades record that passes both filters and lacks one of the six fields
  read by subscript makes the loop body raise, so the converter raises on any list that
  holds the record; when the numeric fields that are present are well formed, the
  exception is the \<open>KeyError\<close>.
\<close>

theorem missing_trade_field_raises:
  "passes_trade_filters r \<Longrightarrow> k \<in> trade_fields \<Longrightarrow> r k = None \<Longrightarrow>
   (\<exists>e. trade_row m r = Inl e)
   \<and> (numeric_fields_ok r \<longrightarrow> trade_row m r = Inl KeyError)
   \<and> (r \<in> set records \<longrightarrow> (\<exists>e. convert_trades records m = Inl e))"
proof -
  assume a: "passes_trade_filters r" "k \<in> trade_fields" "r k = None"
  from trade_row_missing_field [OF a] obtain e where e: "trade_row m r = Inl e" ..
  from trade_row_raises_cases [OF e] have "numeric_fields_ok r \<longrightarrow> e = KeyError" by auto
  moreover have "\<exists>e'. convert_trades records m = Inl e'" if "r \<in> set records"
    using convert_loop_raises [of r records "trade_row m" e] that e
    by (simp add: convert_trades_def)
  ultimately show ?thesis using e by auto
qed

text \<open>
An order without the price field, its numeric fields well formed.
\<close>

theorem missing_trade_field_raises_witness:
  "trade_row Map.empty
     ((trade_record ''Order'' value_stock ''USD'' ''AAPL'' ''2025-08-14, 11:32:43'' ''50'' ''150.25'' [])
        (field_price := None)) = Inl KeyError
   \<and> (\<exists>e. convert_trades
        [trade_record ''Order'' value_stock ''USD'' ''AAPL'' ''2025-08-14, 11:32:43'' ''50'' ''150.25'' [],
         (trade_record ''Order'' value_stock ''USD'' ''AAPL'' ''2025-08-14, 11:32:43'' ''50'' ''150.25'' [])
           (field_price := None)]
        Map.empty = Inl e)"
proof -
  let ?full = "trade_record ''Order'' value_stock ''USD'' ''AAPL'' ''2025-08-14, 11:32:43''
    ''50'' ''150.25'' []"
  let ?r = "?full(field_price := None)"
  have ne: "field_price \<noteq> ''DataDiscriminator''" "field_price \<noteq> field_asset_class"
    "field_price \<noteq> field_quantity" "field_price \<noteq> field_commission"
    by (simp_all add: field_defs)
  have p: "passes_trade_filters ?r"
    using ne by (simp add: passes_trade_filters_def trade_record_fields)
  have k: "field_price \<in> trade_fields" by (simp add: trade_fields_def)
  have n: "?r field_price = None" by simp
  have ok: "numeric_fields_ok ?r"
    using ne by (simp add: numeric_fields_ok_def trade_record_fields py_float_50 strip_empty)
  note t = missing_trade_field_raises [of ?r field_price Map.empty "[?full, ?r]", OF p k n]
  have mem: "?r \<in> set [?full, ?r]" by simp
  have "trade_row Map.empty ?r = Inl KeyError"
    by (rule t [THEN conjunct2, THEN conjunct1, THEN mp, OF ok])
  moreover have "\<exists>e. convert_trades [?full, ?r] Map.empty = Inl e"
    by (rule t [THEN conjunct2, THEN conjunct2, THEN mp, OF mem])
  ultimately show ?thesis by (rule conjI)
qed

section \<open>Unparsable numbers\<close>

lemma cash_row_cases:
  "cash_row r =
     (if \<not> eligible_amount r then Inr None
      else case py_float (amount_text r) of
             None \<Rightarrow> Inl ValueError
           | Some amount \<Rightarrow>
               Inr (Some \<lparr>Symbol = ''$CASH'',
                          Side = (if py_gt0 amount then ''Deposit'' else ''Withdrawal''),
                          Qty = (if py_gt0 amount then amount else py_abs amount),
                          Fill_Price = [], Commission = Str [],
                          Closing_Time = midnight (strip (get_or_empty r field_settle_date))\<rparr>))"
  by (simp add: cash_row_def eligible_amount_def amount_text_def and_then_def to_float_def
      split: option.splits)

lemma dividend_row_cases:
  "dividend_row r =
     (if \<not> eligible_amount r then Inr None
      else case py_float (amount_text r) of
             None \<Rightarrow> Inl ValueError
           | Some amount \<Rightarrow>
               if py_le0 amount then Inr None
               else Inr (Some \<lparr>Symbol = ''$CASH'', Side = ''Dividend'', Qty = amount,
                               Fill_Price = [], Commission = Str [],
                               Closing_Time = midnight (strip (get_or_empty r field_date))\<rparr>))"
  by (simp add: dividend_row_def eligible_amount_def amount_text_def and_then_def to_float_def
      split: option.splits)

lemma tax_row_cases:
  "tax_row r =
     (if \<not> eligible_amount r then Inr None
      else case py_float (amount_text r) of
             None \<Rightarrow> Inl ValueError
           | Some amount \<Rightarrow>
               if py_ge0 amount then Inr None
               else Inr (Some \<lparr>Symbol = ''$CASH'', Side = ''Taxes and fees'',
                               Qty = py_abs amount, Fill_Price = [], Commission = Str [],
                               Closing_Time = midnight (strip (get_or_empty r field_date))\<rparr>))"
  by (simp add: tax_row_def eligible_amount_def amount_text_def and_then_def to_float_def
      split: option.splits)

lemma amount_row_raises:
  "unparsable_amount r \<Longrightarrow>
   cash_row r = Inl ValueError \<and> dividend_row r = Inl ValueError \<and> tax_row r = Inl ValueError"
  by (simp add: unparsable_amount_def cash_row_cases dividend_row_cases tax_row_cases)

lemma amount_row_errors:
  "cash_row r = Inl e \<Longrightarrow> e = ValueError"
  "dividend_row r = Inl e \<Longrightarrow> e = ValueError"
  "tax_row r = Inl e \<Longrightarrow> e = ValueError"
  by (auto simp: cash_row_cases dividend_row_cases tax_row_cases
      split: if_splits option.splits)

lemma value_error_only:
  assumes "\<And>r e. body r = Inl e \<Longrightarrow> e = ValueError"
  shows "\<forall>r \<in> set records. body r = Inl ValueError \<or> (\<exists>res. body r = Inr res)"
proof
  fix r assume "r \<in> set records"
  show "body r = Inl ValueError \<or> (\<exists>res. body r = Inr res)"
    using assms [of r] by (cases "body r") auto
qed

lemma amount_converters_raise:
  assumes "r \<in> set records" and "unparsable_amount r"
  shows "convert_cash_transactions records label = Inl ValueError"
    and "convert_dividends records = Inl ValueError"
    and "convert_taxes records = Inl ValueError"
proof -
  note raises = amount_row_raises [OF assms(2)]
  show "convert_cash_transactions records label = Inl ValueError"
    unfolding convert_cash_transactions_def
    using value_error_only [of cash_row records, OF amount_row_errors(1)] assms(1) raises
    by (intro convert_loop_first_error [of records cash_row ValueError r]) simp_all
  show "convert_dividends records = Inl ValueError"
    unfolding convert_dividends_def
    using value_error_only [of dividend_row records, OF amount_row_errors(2)] assms(1) raises
    by (intro convert_loop_first_error [of records dividend_row ValueError r]) simp_all
  show "convert_taxes records = Inl ValueError"
    unfolding convert_taxes_def
    using value_error_only [of tax_row records, OF amount_row_errors(3)] assms(1) raises
    by (intro convert_loop_first_error [of records tax_row ValueError r]) simp_all
qed

lemma unparsable_quantity_raises:
  assumes "unparsable_quantity r"
  shows "\<exists>e. trade_row m r = Inl e"
    and "r field_symbol \<noteq> None \<Longrightarrow> r field_currency \<noteq> None \<Longrightarrow> trade_row m r = Inl ValueError"
proof -
  from assms have p: "passes_trade_filters r"
    and q: "\<exists>v. r field_quantity = Some v \<and> py_float v = None"
    by (auto simp: unparsable_quantity_def split: option.splits)
  show "\<exists>e. trade_row m r = Inl e"
  proof (cases "trade_row m r")
    case (Inl e)
    then show ?thesis by simp
  next
    case (Inr res)
    from trade_row_emits [OF p Inr] q show ?thesis by auto
  qed
  show "trade_row m r = Inl ValueError"
    if "r field_symbol \<noteq> None" "r field_currency \<noteq> None"
  proof -
    from p have f: "r ''DataDiscriminator'' = Some ''Order''"
        "r field_asset_class = Some value_stock"
      by (simp_all add: passes_trade_filters_def)
    from that q f show ?thesis
      by (auto simp: trade_row_def and_then_def item_def to_float_def)
  qed
qed

lemma process_returns:
  assumes "process_activity_statement file m = Inr rows"
  shows "\<exists>secs rows1 rows2 rows3 rows4.
      parse_activity_statement file = Inr secs
      \<and> convert_trades (section_records secs section_trades) m = Inr rows1
      \<and> convert_cash_transactions (section_records secs section_deposits) [] = Inr rows2
      \<and> convert_dividends (section_records secs section_dividends) = Inr rows3
      \<and> convert_taxes (section_records secs section_taxes) = Inr rows4
      \<and> rows = rows1 @ rows2 @ rows3 @ rows4"
  using assms unfolding process_activity_statement_def
  by (simp add: and_then_Inr) blast

lemma collect_rows_raises:
  "x \<in> set xs \<Longrightarrow> process_activity_statement x m = Inl e \<Longrightarrow>
   \<exists>e'. collect_rows m acc xs = Inl e'"
proof (induction xs arbitrary: acc)
  case Nil
  then show ?case by simp
next
  case (Cons y xs)
  then show ?case by (cases "process_activity_statement y m") auto
qed

lemma main_rows_raises:
  "x \<in> set xs \<Longrightarrow> process_activity_statement x m = Inl e \<Longrightarrow>
   \<exists>e'. main_rows xs m = Inl e'"
  using collect_rows_raises [of x xs m e "[]"]
  by (auto simp: main_rows_def)

text \<open>
Claim C8. A trades record that passes both filters and whose quantity does not parse
  makes the loop body raise (the \<open>ValueError\<close> when the symbol and currency before it
  are present), so the trades converter raises on every list holding it. A record of a
  cash section with non-empty description and amount whose amount does not parse makes
  each of the three cash converters raise the \<open>ValueError\<close>. Such a record in the
  section of its converter makes the processing of the file raise, and with it the
  whole run.
\<close>

theorem unparsable_number_is_fatal:
  "(unparsable_quantity r \<longrightarrow>
      (\<exists>e. trade_row m r = Inl e)
      \<and> (r field_symbol \<noteq> None \<and> r field_currency \<noteq> None \<longrightarrow> trade_row m r = Inl ValueError)
      \<and> (r \<in> set records \<longrightarrow> (\<exists>e. convert_trades records m = Inl e)))
   \<and> (unparsable_amount r \<and> r \<in> set records \<longrightarrow>
        convert_cash_transactions records label = Inl ValueError
        \<and> convert_dividends records = Inl ValueError
        \<and> convert_taxes records = Inl ValueError)
   \<and> (parse_activity_statement file = Inr secs
        \<and> ((unparsable_quantity r \<and> r \<in> set (section_records secs section_trades))
           \<or> (unparsable_amount r
               \<and> r \<in> set (section_records secs section_deposits)
                     \<union> set (section_records secs section_dividends)
                     \<union> set (section_records secs section_taxes))) \<longrightarrow>
        (\<exists>e. process_activity_statement file m = Inl e)
        \<and> (file \<in> set inputs \<longrightarrow> (\<exists>e. main_rows inputs m = Inl e)))"
proof -
  have trades: "\<exists>e. convert_trades recs m = Inl e"
    if "unparsable_quantity r" "r \<in> set recs" for recs
  proof -
    from unparsable_quantity_raises(1) [OF that(1), of m] obtain e where
      "trade_row m r = Inl e" ..
    from convert_loop_raises [of r recs "trade_row m" e] that(2) this
    show ?thesis by (simp add: convert_trades_def)
  qed
  have aborts: "\<exists>e. process_activity_statement file m = Inl e"
    if "parse_activity_statement file = Inr secs"
      and "(unparsable_quantity r \<and> r \<in> set (section_records secs section_trades))
           \<or> (unparsable_amount r
               \<and> r \<in> set (section_records secs section_deposits)
                     \<union> set (section_records secs section_dividends)
                     \<union> set (section_records secs section_taxes))"
  proof (cases "process_activity_statement file m")
    case (Inl e)
    then show ?thesis by simp
  next
    case (Inr rows)
    from process_returns [OF Inr] that(1) obtain rows1 rows2 rows3 rows4 where
      ok: "convert_trades (section_records secs section_trades) m = Inr rows1"
        "convert_cash_transactions (section_records secs section_deposits) [] = Inr rows2"
        "convert_dividends (section_records secs section_dividends) = Inr rows3"
        "convert_taxes (section_records secs section_taxes) = Inr rows4"
      by auto
    from that(2) have False
    proof (elim disjE conjE UnE)
      assume "unparsable_quantity r" "r \<in> set (section_records secs section_trades)"
      from trades [OF this] ok(1) show False by simp
    next
      assume "unparsable_amount r" "r \<in> set (section_records secs section_deposits)"
      from amount_converters_raise(1) [OF this(2,1), of "[]"] ok(2) show False by simp
    next
      assume "unparsable_amount r" "r \<in> set (section_records secs section_dividends)"
      from amount_converters_raise(2) [OF this(2,1)] ok(3) show False by simp
    next
      assume "unparsable_amount r" "r \<in> set (section_records secs section_taxes)"
      from amount_converters_raise(3) [OF this(2,1)] ok(4) show False by simp
    qed
    then show ?thesis ..
  qed
  have part1: "unparsable_quantity r \<longrightarrow>
      (\<exists>e. trade_row m r = Inl e)
      \<and> (r field_symbol \<noteq> None \<and> r field_currency \<noteq> None \<longrightarrow> trade_row m r = Inl ValueError)
      \<and> (r \<in> set records \<longrightarrow> (\<exists>e. convert_trades records m = Inl e))"
    using unparsable_quantity_raises(1) [of r m] unparsable_quantity_raises(2) [of r m]
      trades [of records]
    by blast
  have part2: "unparsable_amount r \<and> r \<in> set records \<longrightarrow>
        convert_cash_transactions records label = Inl ValueError
        \<and> convert_dividends records = Inl ValueError
        \<and> convert_taxes records = Inl ValueError"
    using amount_converters_raise(1) [of r records label]
      amount_converters_raise(2) [of r records] amount_converters_raise(3) [of r records]
    by blast
  have part3: "parse_activity_statement file = Inr secs
        \<and> ((unparsable_quantity r \<and> r \<in> set (section_records secs section_trades))
           \<or> (unparsable_amount r
               \<and> r \<in> set (section_records secs section_deposits)
                     \<union> set (section_records secs section_dividends)
                     \<union> set (section_records secs section_taxes))) \<longrightarrow>
        (\<exists>e. process_activity_statement file m = Inl e)
        \<and> (file \<in> set inputs \<longrightarrow> (\<exists>e. main_rows inputs m = Inl e))"
  proof (intro impI, elim conjE)
    assume h: "parse_activity_statement file = Inr secs"
      "(unparsable_quantity r \<and> r \<in> set (section_records secs section_trades))
           \<or> (unparsable_amount r
               \<and> r \<in> set (section_records secs section_deposits)
                     \<union> set (section_records secs section_dividends)
                     \<union> set (section_records secs section_taxes))"
    from aborts [OF h] obtain e where e: "process_activity_statement file m = Inl e" ..
    then show "(\<exists>e. process_activity_statement file m = Inl e)
        \<and> (file \<in> set inputs \<longrightarrow> (\<exists>e. main_rows inputs m = Inl e))"
      using main_rows_raises [of "file" inputs m e] by blast
  qed
  from part1 part2 part3 show ?thesis by (intro conjI)
qed

lemmas section_defs = section_trades_def section_deposits_def section_dividends_def
  section_taxes_def

lemma strip_section_trades: "strip section_trades = section_trades"
  unfolding section_trades_def by code_simp

lemma strip_Header: "strip ''Header'' = ''Header''"
  by code_simp

lemma dedupe_trades_header: "dedupe_headers trades_header = trades_header"
  by (simp add: dedupe_headers_def trades_header_def field_defs)

lemma make_trade_record:
  "make_record trades_header [d, a, cu, sy, dt, q, p, c] = trade_record d a cu sy dt q p c"
  by (simp add: make_record_def pad_data_full trades_header_def trade_record_def)

lemma parse_trades_file:
  "parse_activity_statement (trades_file q c) =
     Inr [section_trades \<mapsto>
       [trade_record ''Order'' value_stock ''USD'' ''AAPL'' ''2025-08-14, 11:32:43'' q
          ''150.25'' c]]"
proof -
  let ?st1 = "\<lparr>sections = [section_trades \<mapsto> []], current_section = Some section_trades,
    current_headers = Some trades_header\<rparr>"
  have h: "parse_row initial_state (section_trades # ''Header'' # trades_header) = Inr ?st1"
    by (simp add: parse_row_def initial_state_def strip_section_trades strip_Header
        dedupe_trades_header)
  have ne: "trades_header \<noteq> []" by (simp add: trades_header_def)
  have d: "parse_row ?st1 [section_trades, ''Data'', ''Order'', value_stock, ''USD'', ''AAPL'',
       ''2025-08-14, 11:32:43'', q, ''150.25'', c] =
     Inr (?st1\<lparr>sections := [section_trades \<mapsto>
       [trade_record ''Order'' value_stock ''USD'' ''AAPL'' ''2025-08-14, 11:32:43'' q
          ''150.25'' c]]\<rparr>)"
    using ne
    by (simp add: parse_row_def strip_section_trades strip_Data make_trade_record)
  show ?thesis
    using h d by (simp add: parse_activity_statement_def trades_file_def)
qed

lemma convert_nothing:
  "convert_cash_transactions [] label = Inr []" "convert_dividends [] = Inr []"
  "convert_taxes [] = Inr []"
  by (simp_all add: convert_cash_transactions_def convert_dividends_def convert_taxes_def)

lemma process_trades_file:
  "process_activity_statement (trades_file q c) m =
     convert_trades
       [trade_record ''Order'' value_stock ''USD'' ''AAPL'' ''2025-08-14, 11:32:43'' q
          ''150.25'' c] m"
proof -
  have other: "section_trades \<noteq> section_deposits" "section_trades \<noteq> section_dividends"
    "section_trades \<noteq> section_taxes"
    by (simp_all add: section_defs)
  show ?thesis
    using other
    by (cases "convert_trades
       [trade_record ''Order'' value_stock ''USD'' ''AAPL'' ''2025-08-14, 11:32:43'' q
          ''150.25'' c] m")
      (simp_all add: process_activity_statement_def parse_trades_file and_then_def
        section_records_def convert_nothing)
qed

lemma cash_record_fields:
  "get_or_empty (cash_record d a s) field_description = d"
  "get_or_empty (cash_record d a s) field_amount = a"
  "get_or_empty (cash_record d a s) field_settle_date = s"
  "cash_record d a s field_quantity = None"
  by (simp_all add: cash_record_def get_or_empty_def field_defs)

lemma dated_record_fields:
  "get_or_empty (dated_record d a s) field_description = d"
  "get_or_empty (dated_record d a s) field_amount = a"
  "get_or_empty (dated_record d a s) field_date = s"
  "dated_record d a s field_quantity = None"
  by (simp_all add: dated_record_def get_or_empty_def field_defs)

lemma strip_Wire: "strip ''Wire'' = ''Wire''"
  by code_simp

lemma strip_abc: "strip ''abc'' = ''abc''"
  by code_simp

text \<open>
The quantity and the amount \<open>abc\<close>: in a list of records, in a file and in a run of
  two files.
\<close>

theorem unparsable_number_is_fatal_witness:
  "trade_row Map.empty
     (trade_record ''Order'' value_stock ''USD'' ''AAPL'' ''2025-08-14, 11:32:43'' ''abc''
        ''150.25'' []) = Inl ValueError
   \<and> (\<exists>e. convert_trades
          [trade_record ''Order'' value_stock ''USD'' ''AAPL'' ''2025-08-14, 11:32:43'' ''50''
             ''150.25'' [],
           trade_record ''Order'' value_stock ''USD'' ''AAPL'' ''2025-08-14, 11:32:43'' ''abc''
             ''150.25'' []] Map.empty = Inl e)
   \<and> convert_cash_transactions [cash_record ''Wire'' ''abc'' []] [] = Inl ValueError
   \<and> convert_dividends [cash_record ''Wire'' ''abc'' []] = Inl ValueError
   \<and> convert_taxes [cash_record ''Wire'' ''abc'' []] = Inl ValueError
   \<and> (\<exists>e. process_activity_statement (trades_file ''abc'' []) Map.empty = Inl e)
   \<and> (\<exists>e. main_rows [trades_file ''50'' [], trades_file ''abc'' []] Map.empty = Inl e)"
proof -
  let ?ok = "trade_record ''Order'' value_stock ''USD'' ''AAPL'' ''2025-08-14, 11:32:43'' ''50''
    ''150.25'' []"
  let ?bad = "trade_record ''Order'' value_stock ''USD'' ''AAPL'' ''2025-08-14, 11:32:43''
    ''abc'' ''150.25'' []"
  let ?cash = "cash_record ''Wire'' ''abc'' []"
  let ?secs = "[section_trades \<mapsto> [?bad]]"
  let ?inputs = "[trades_file ''50'' [], trades_file ''abc'' []]"
  note t = unparsable_number_is_fatal
    [of ?bad Map.empty "[?ok, ?bad]" "[]" "trades_file ''abc'' []" ?secs ?inputs]
  note c = unparsable_number_is_fatal
    [of ?cash Map.empty "[?cash]" "[]" "trades_file ''abc'' []" ?secs ?inputs]
  have uq: "unparsable_quantity ?bad"
    by (simp add: unparsable_quantity_def passes_trade_record trade_record_fields py_float_abc)
  have ua: "unparsable_amount ?cash"
    by (simp add: unparsable_amount_def eligible_amount_def amount_text_def cash_record_fields
        strip_Wire strip_abc py_float_abc)
  have present: "?bad field_symbol \<noteq> None \<and> ?bad field_currency \<noteq> None"
    by (simp add: trade_record_fields)
  note trades = t [THEN conjunct1, THEN mp, OF uq]
  have "trade_row Map.empty ?bad = Inl ValueError"
    by (rule trades [THEN conjunct2, THEN conjunct1, THEN mp, OF present])
  moreover have "\<exists>e. convert_trades [?ok, ?bad] Map.empty = Inl e"
    by (rule trades [THEN conjunct2, THEN conjunct2, THEN mp]) simp
  moreover have "convert_cash_transactions [?cash] [] = Inl ValueError
      \<and> convert_dividends [?cash] = Inl ValueError \<and> convert_taxes [?cash] = Inl ValueError"
    by (rule c [THEN conjunct2, THEN conjunct1, THEN mp]) (simp add: ua)
  moreover have "(\<exists>e. process_activity_statement (trades_file ''abc'' []) Map.empty = Inl e)
      \<and> (trades_file ''abc'' [] \<in> set ?inputs \<longrightarrow> (\<exists>e. main_rows ?inputs Map.empty = Inl e))"
    by (rule t [THEN conjunct2, THEN conjunct2, THEN mp])
      (simp add: parse_trades_file section_records_def uq)
  moreover have "trades_file ''abc'' [] \<in> set ?inputs" by simp
  ultimately show ?thesis by blast
qed

section \<open>The merger\<close>


lemma key_eq_trans: "key_eq k k' \<Longrightarrow> key_eq k' k'' \<Longrightarrow> key_eq k k''"
  by (auto simp: key_eq_def py_eq_def split: prod.splits)



lemma same_key_refl_iff: "same_key r r \<longleftrightarrow> Qty r \<noteq> NaN"
  by (simp add: same_key_def key_eq_def key_of_def py_eq_def)


lemma dedupe_rows_firsts:
  "(\<And>k. (\<exists>k' \<in> seen. key_eq k k') \<longleftrightarrow> (\<exists>p \<in> set pre. key_eq k (key_of p))) \<Longrightarrow>
   dedupe_rows seen deduped xs = deduped @ firsts pre xs"
proof (induction xs arbitrary: seen deduped pre)
  case Nil
  then show ?case by simp
next
  case (Cons r xs)
  have dup: "(\<exists>k' \<in> seen. key_eq (key_of r) k') \<longleftrightarrow> (\<exists>p \<in> set pre. same_key r p)"
    using Cons.prems [of "key_of r"] by (simp add: same_key_def)
  show ?case
  proof (cases "\<exists>p \<in> set pre. same_key r p")
    case True
    then obtain p where p: "p \<in> set pre" "key_eq (key_of r) (key_of p)"
      by (auto simp: same_key_def)
    have inv: "(\<exists>k' \<in> seen. key_eq k k') \<longleftrightarrow> (\<exists>q \<in> set (pre @ [r]). key_eq k (key_of q))"
      for k
      using Cons.prems [of k] p key_eq_trans [of k "key_of r" "key_of p"] by auto
    from Cons.IH [of seen "pre @ [r]" deduped, OF inv] True dup show ?thesis by simp
  next
    case False
    have inv: "(\<exists>k' \<in> insert (key_of r) seen. key_eq k k') \<longleftrightarrow>
        (\<exists>q \<in> set (pre @ [r]). key_eq k (key_of q))" for k
      using Cons.prems [of k] by auto
    from Cons.IH [of "insert (key_of r) seen" "pre @ [r]" "deduped @ [r]", OF inv] False dup
    show ?thesis by simp
  qed
qed

lemma dedupe_rows_eq_firsts: "dedupe_rows {} [] xs = firsts [] xs"
  using dedupe_rows_firsts [of "{}" "[]" "[]" xs] by simp





lemma firsts_append: "firsts pre (xs @ ys) = firsts pre xs @ firsts (pre @ xs) ys"
  by (induction xs arbitrary: pre) simp_all

lemma firsts_all_seen:
  "\<forall>r \<in> set ys. \<exists>p \<in> set pre. same_key r p \<Longrightarrow> firsts pre ys = []"
  by (induction ys arbitrary: pre) auto

lemma set_firsts: "set (firsts pre xs) \<subseteq> set xs"
  by (induction xs arbitrary: pre) auto







lemma main_rows_two:
  "process_activity_statement f1 m = Inr rows1 \<Longrightarrow>
   process_activity_statement f2 m = Inr rows2 \<Longrightarrow>
   main_rows [f1, f2] m = Inr (merge_rows (rows1 @ rows2))"
  by (simp add: main_rows_def)

lemma main_rows_one:
  "process_activity_statement f1 m = Inr rows1 \<Longrightarrow> main_rows [f1] m = Inr (merge_rows rows1)"
  by (simp add: main_rows_def)


text \<open>
On rows without a NaN quantity the deduplication of a list followed by itself is the
  deduplication of the list.
\<close>

lemma dedupe_rows_twice:
  assumes "\<forall>r \<in> set xs. Qty r \<noteq> NaN"
  shows "dedupe_rows {} [] (xs @ xs) = dedupe_rows {} [] xs"
proof -
  have "\<forall>r \<in> set xs. \<exists>p \<in> set ([] @ xs). same_key r p"
  proof
    fix r assume "r \<in> set xs"
    with assms have "same_key r r" by (simp add: same_key_refl_iff)
    with \<open>r \<in> set xs\<close> show "\<exists>p \<in> set ([] @ xs). same_key r p" by auto
  qed
  then have "firsts ([] @ xs) xs = []" by (rule firsts_all_seen)
  then show ?thesis by (simp add: dedupe_rows_eq_firsts firsts_append)
qed






lemma trade_row_blank_commission:
  "py_float q = Some x \<Longrightarrow>
   trade_row Map.empty
     (trade_record ''Order'' value_stock ''USD'' ''AAPL'' ''2025-08-14, 11:32:43'' q ''150.25'' []) =
   Inr (Some (trade_example (if py_gt0 x then ''Buy'' else ''Sell'') (py_abs x) (Str [])))"
  using trade_row_example [of q x] by (simp add: trade_example_def)




text \<open>
Claim C6 at a file whose one trade has the quantity \<open>nan\<close>. Processing the file gives
  one row with \<open>Qty\<close> NaN; the run on the file alone gives that row, and the run on the
  file given twice gives the row twice: the key of the row is not equal to the key of
  its second copy, because NaN is not equal to NaN.
\<close>

theorem nan_rows_are_not_deduplicated:
  "process_activity_statement (trades_file ''nan'' []) Map.empty =
     Inr [trade_example ''Sell'' NaN (Str [])]
   \<and> main_rows [trades_file ''nan'' []] Map.empty = Inr [trade_example ''Sell'' NaN (Str [])]
   \<and> main_rows [trades_file ''nan'' [], trades_file ''nan'' []] Map.empty =
       Inr [trade_example ''Sell'' NaN (Str []), trade_example ''Sell'' NaN (Str [])]"
proof -
  let ?r = "trade_example ''Sell'' NaN (Str [])"
  have p: "process_activity_statement (trades_file ''nan'' []) Map.empty = Inr [?r]"
    using trade_row_blank_commission [OF py_float_nan]
    by (simp add: process_trades_file convert_trades_def py_gt0_def py_abs_def)
  have nk: "\<not> key_eq (key_of ?r) (key_of ?r)"
    by (simp add: key_eq_def key_of_def py_eq_def trade_example_def)
  have d2: "dedupe_rows {} [] ([?r] @ [?r]) = [?r, ?r]" using nk by simp
  have d1: "dedupe_rows {} [] [?r] = [?r]" by simp
  have "main_rows [trades_file ''nan'' []] Map.empty = Inr [?r]"
    using main_rows_one [OF p] d1 by (simp add: merge_rows_def)
  moreover have "main_rows [trades_file ''nan'' [], trades_file ''nan'' []] Map.empty =
      Inr [?r, ?r]"
    using main_rows_two [OF p p] d2 by (simp add: merge_rows_def)
  ultimately show ?thesis using p by simp
qed

lemma sort_time_eq: "sort_time r = Closing_Time r"
  by (simp add: sort_time_def)

text \<open>
Claim C5. The merged output is sorted ascending by Closing Time, the strings compared
  lexicographically: every adjacent pair is in order. The sort is stable: the rows with
  any given Closing Time are in the order the deduplicated input has them, and the
  output is a permutation of the deduplicated input. Rows with an empty Closing Time
  come before all others.
\<close>

theorem merged_output_is_sorted:
  "sorted (map Closing_Time (merge_rows xs))
   \<and> (\<forall>i. Suc i < length (merge_rows xs) \<longrightarrow>
         Closing_Time (merge_rows xs ! i) \<le> Closing_Time (merge_rows xs ! Suc i))
   \<and> (\<forall>t. filter (\<lambda>r. Closing_Time r = t) (merge_rows xs) =
            filter (\<lambda>r. Closing_Time r = t) (dedupe_rows {} [] xs))
   \<and> mset (merge_rows xs) = mset (dedupe_rows {} [] xs)
   \<and> (\<forall>i j. i < j \<and> j < length (merge_rows xs) \<and> Closing_Time (merge_rows xs ! j) = [] \<longrightarrow>
         Closing_Time (merge_rows xs ! i) = [])
   \<and> sort_time r = Closing_Time r"
proof -
  have st: "sort_time = Closing_Time" by (simp add: fun_eq_iff sort_time_eq)
  have s: "sorted (map Closing_Time (merge_rows xs))"
    unfolding merge_rows_def st by (rule sorted_sort_key)
  have adjacent: "Closing_Time (merge_rows xs ! i) \<le> Closing_Time (merge_rows xs ! Suc i)"
    if "Suc i < length (merge_rows xs)" for i
    using sorted_nth_mono [OF s, of i "Suc i"] that by simp
  have stable: "filter (\<lambda>r. Closing_Time r = t) (merge_rows xs) =
            filter (\<lambda>r. Closing_Time r = t) (dedupe_rows {} [] xs)" for t
    unfolding merge_rows_def st by (rule sort_key_stable)
  have empties: "Closing_Time (merge_rows xs ! i) = []"
    if "i < j" "j < length (merge_rows xs)" "Closing_Time (merge_rows xs ! j) = []" for i j
    using sorted_nth_mono [OF s, of i j] that by simp
  have "mset (merge_rows xs) = mset (dedupe_rows {} [] xs)"
    by (simp add: merge_rows_def)
  with s adjacent stable empties show ?thesis
    by (simp add: sort_time_eq) blast
qed

lemma merge_rows_example:
  "merge_rows
     [deposit_row 1 ''2025-02-01 0:00:00'', deposit_row 2 [],
      deposit_row 3 ''2025-01-15 0:00:00'', deposit_row 4 ''2025-02-01 0:00:00''] =
     [deposit_row 2 [], deposit_row 3 ''2025-01-15 0:00:00'',
      deposit_row 1 ''2025-02-01 0:00:00'', deposit_row 4 ''2025-02-01 0:00:00'']"
proof -
  have d: "dedupe_rows {} []
     [deposit_row 1 ''2025-02-01 0:00:00'', deposit_row 2 [],
      deposit_row 3 ''2025-01-15 0:00:00'', deposit_row 4 ''2025-02-01 0:00:00''] =
     [deposit_row 1 ''2025-02-01 0:00:00'', deposit_row 2 [],
      deposit_row 3 ''2025-01-15 0:00:00'', deposit_row 4 ''2025-02-01 0:00:00'']"
    by (simp add: key_eq_def key_of_def py_eq_def deposit_row_def)
  have t: "sort_time (deposit_row a c) = c" for a c
    by (simp add: sort_time_def deposit_row_def)
  show ?thesis
    unfolding merge_rows_def d by (simp add: sort_key_def t)
qed

text \<open>
Four deposits: the one without a timestamp comes first, and the two of the same day
  keep their input order.
\<close>

theorem merged_output_is_sorted_witness:
  "merge_rows
     [deposit_row 1 ''2025-02-01 0:00:00'', deposit_row 2 [],
      deposit_row 3 ''2025-01-15 0:00:00'', deposit_row 4 ''2025-02-01 0:00:00''] =
     [deposit_row 2 [], deposit_row 3 ''2025-01-15 0:00:00'',
      deposit_row 1 ''2025-02-01 0:00:00'', deposit_row 4 ''2025-02-01 0:00:00'']
   \<and> sorted [[], ''2025-01-15 0:00:00'', ''2025-02-01 0:00:00'', ''2025-02-01 0:00:00'']
   \<and> ''2025-01-15 0:00:00'' \<le> ''2025-02-01 0:00:00''"
proof -
  let ?xs = "[deposit_row 1 ''2025-02-01 0:00:00'', deposit_row 2 [],
      deposit_row 3 ''2025-01-15 0:00:00'', deposit_row 4 ''2025-02-01 0:00:00'']"
  note t = merged_output_is_sorted [of ?xs]
  have c: "Closing_Time (deposit_row a c) = c" for a c by (simp add: deposit_row_def)
  have "sorted (map Closing_Time (merge_rows ?xs))" by (rule t [THEN conjunct1])
  then have s: "sorted [[], ''2025-01-15 0:00:00'', ''2025-02-01 0:00:00'', ''2025-02-01 0:00:00'']"
    unfolding merge_rows_example by (simp only: list.map c)
  have "Suc 1 < length (merge_rows ?xs) \<longrightarrow>
      Closing_Time (merge_rows ?xs ! 1) \<le> Closing_Time (merge_rows ?xs ! Suc 1)"
    by (rule t [THEN conjunct2, THEN conjunct1, THEN spec])
  then have "''2025-01-15 0:00:00'' \<le> ''2025-02-01 0:00:00''"
    unfolding merge_rows_example by (simp add: c)
  with s merge_rows_example show ?thesis by (intro conjI)
qed

section \<open>Sides and quantities of the emitted rows\<close>

lemma set_map_filter: "set (List.map_filter f xs) = {y. \<exists>x \<in> set xs. f x = Some y}"
  by (induction xs) (auto simp: List.map_filter_simps split: option.splits)

lemma convert_loop_rows:
  "convert_loop body [] records = Inr rows \<Longrightarrow> row \<in> set rows \<Longrightarrow>
   \<exists>r \<in> set records. body r = Inr (Some row)"
proof -
  assume a: "convert_loop body [] records = Inr rows" "row \<in> set rows"
  from convert_loop_returns [OF a(1)] a(2) obtain r where
    r: "r \<in> set records" "emitted body r = Some row" "\<exists>res. body r = Inr res"
    by (auto simp: set_map_filter)
  then have "body r = Inr (Some row)" by (auto simp: emitted_def)
  with r(1) show ?thesis by blast
qed

lemma py_abs_cases: "py_ge0 (py_abs x) \<or> py_abs x = NaN"
  by (cases x) (simp_all add: py_abs_def py_ge0_def)

lemma py_abs_NaN: "py_abs x = NaN \<longleftrightarrow> x = NaN"
  by (cases x) (simp_all add: py_abs_def)

lemma py_gt0_ge0: "py_gt0 x \<Longrightarrow> py_ge0 x"
  by (cases x) (simp_all add: py_gt0_def py_ge0_def)

lemma not_py_le0: "\<not> py_le0 x \<Longrightarrow> py_ge0 x \<or> x = NaN"
  by (cases x) (simp_all add: py_le0_def py_ge0_def)

lemma trade_row_side_qty:
  assumes "trade_row m r = Inr (Some row)"
  shows "Side row \<in> sides \<and> (py_ge0 (Qty row) \<or> Qty row = NaN)
    \<and> (Qty row = NaN \<longrightarrow> parses_to_nan r)"
proof -
  have p: "passes_trade_filters r"
    using assms trade_row_skip [of r m] by auto
  from trade_row_emits [OF p assms] obtain v q where
    "r field_quantity = Some v" "py_float v = Some q"
    "Side row = (if py_gt0 q then ''Buy'' else ''Sell'')" "Qty row = py_abs q"
    by force
  then show ?thesis
    using py_abs_cases [of q] by (auto simp: sides_def parses_to_nan_def py_abs_NaN)
qed

lemma amount_row_side_qty:
  assumes "cash_row r = Inr (Some row) \<or> dividend_row r = Inr (Some row)
    \<or> tax_row r = Inr (Some row)"
  shows "Side row \<in> sides \<and> (py_ge0 (Qty row) \<or> Qty row = NaN)
    \<and> (Qty row = NaN \<longrightarrow> parses_to_nan r)"
  using assms
proof (elim disjE)
  assume "cash_row r = Inr (Some row)"
  then obtain a where "py_float (amount_text r) = Some a"
    "Side row = (if py_gt0 a then ''Deposit'' else ''Withdrawal'')"
    "Qty row = (if py_gt0 a then a else py_abs a)"
    by (auto simp: cash_row_cases split: if_splits option.splits)
  then show ?thesis
    using py_abs_cases [of a] py_gt0_ge0 [of a]
    by (auto simp: sides_def parses_to_nan_def py_abs_NaN)
next
  assume "dividend_row r = Inr (Some row)"
  then obtain a where "py_float (amount_text r) = Some a" "\<not> py_le0 a"
    "Side row = ''Dividend''" "Qty row = a"
    by (auto simp: dividend_row_cases split: if_splits option.splits)
  then show ?thesis
    using not_py_le0 [of a] by (auto simp: sides_def parses_to_nan_def)
next
  assume "tax_row r = Inr (Some row)"
  then obtain a where "py_float (amount_text r) = Some a"
    "Side row = ''Taxes and fees''" "Qty row = py_abs a"
    by (auto simp: tax_row_cases split: if_splits option.splits)
  then show ?thesis
    using py_abs_cases [of a] by (auto simp: sides_def parses_to_nan_def py_abs_NaN)
qed

text \<open>
Every row that one of the four converters emits has a side of the enumeration, and a
  \<open>Qty\<close> that is at least zero or NaN; it is NaN only when the quantity or amount of an
  input record parses to NaN.
\<close>

lemma emitted_rows_side_and_qty:
  assumes "convert_trades records m = Inr rows
    \<or> convert_cash_transactions records label = Inr rows
    \<or> convert_dividends records = Inr rows \<or> convert_taxes records = Inr rows"
    and "row \<in> set rows"
  shows "Side row \<in> sides \<and> (py_ge0 (Qty row) \<or> Qty row = NaN)
    \<and> (Qty row = NaN \<longrightarrow> (\<exists>r \<in> set records. parses_to_nan r))"
  using assms(1)
proof (elim disjE)
  assume "convert_trades records m = Inr rows"
  then obtain r where "r \<in> set records" "trade_row m r = Inr (Some row)"
    using convert_loop_rows [of "trade_row m" records rows row] assms(2)
    by (auto simp: convert_trades_def)
  with trade_row_side_qty [of m r row] show ?thesis by blast
next
  assume "convert_cash_transactions records label = Inr rows"
  then obtain r where "r \<in> set records" "cash_row r = Inr (Some row)"
    using convert_loop_rows [of cash_row records rows row] assms(2)
    by (auto simp: convert_cash_transactions_def)
  with amount_row_side_qty [of r row] show ?thesis by blast
next
  assume "convert_dividends records = Inr rows"
  then obtain r where "r \<in> set records" "dividend_row r = Inr (Some row)"
    using convert_loop_rows [of dividend_row records rows row] assms(2)
    by (auto simp: convert_dividends_def)
  with amount_row_side_qty [of r row] show ?thesis by blast
next
  assume "convert_taxes records = Inr rows"
  then obtain r where "r \<in> set records" "tax_row r = Inr (Some row)"
    using convert_loop_rows [of tax_row records rows row] assms(2)
    by (auto simp: convert_taxes_def)
  with amount_row_side_qty [of r row] show ?thesis by blast
qed

lemma strip_Tax: "strip ''Tax'' = ''Tax''"
  by code_simp

lemma strip_nan: "strip ''nan'' = ''nan''"
  by code_simp

lemma strip_date: "strip ''2025-01-02'' = ''2025-01-02''"
  by code_simp

text \<open>
Claim C4 at a record whose amount or quantity is \<open>nan\<close>. The tax converter lets the
  amount pass its test \<open>amount >= 0\<close> and emits a row with \<open>Qty\<close> NaN, and so do the
  dividend, the cash and the trades converter; \<open>NaN >= 0\<close> is false.
\<close>

theorem nan_amount_is_emitted:
  "convert_taxes [dated_record ''Tax'' ''nan'' ''2025-01-02''] =
     Inr [\<lparr>Symbol = ''$CASH'', Side = ''Taxes and fees'', Qty = NaN, Fill_Price = [],
           Commission = Str [], Closing_Time = ''2025-01-02 0:00:00''\<rparr>]
   \<and> convert_dividends [dated_record ''Tax'' ''nan'' ''2025-01-02''] =
       Inr [\<lparr>Symbol = ''$CASH'', Side = ''Dividend'', Qty = NaN, Fill_Price = [],
             Commission = Str [], Closing_Time = ''2025-01-02 0:00:00''\<rparr>]
   \<and> convert_cash_transactions [cash_record ''Tax'' ''nan'' ''2025-01-02''] [] =
       Inr [\<lparr>Symbol = ''$CASH'', Side = ''Withdrawal'', Qty = NaN, Fill_Price = [],
             Commission = Str [], Closing_Time = ''2025-01-02 0:00:00''\<rparr>]
   \<and> convert_trades
         [trade_record ''Order'' value_stock ''USD'' ''AAPL'' ''2025-08-14, 11:32:43'' ''nan''
            ''150.25'' []] Map.empty =
       Inr [\<lparr>Symbol = ''NASDAQ:AAPL'', Side = ''Sell'', Qty = NaN, Fill_Price = ''150.25'',
             Commission = Str [], Closing_Time = ''2025-08-14 11:32:43''\<rparr>]
   \<and> \<not> py_ge0 NaN"
proof -
  have e1: "eligible_amount (dated_record ''Tax'' ''nan'' ''2025-01-02'')"
    and a1: "amount_text (dated_record ''Tax'' ''nan'' ''2025-01-02'') = ''nan''"
    by (simp_all add: eligible_amount_def amount_text_def dated_record_fields strip_Tax
        strip_nan)
  have e2: "eligible_amount (cash_record ''Tax'' ''nan'' ''2025-01-02'')"
    and a2: "amount_text (cash_record ''Tax'' ''nan'' ''2025-01-02'') = ''nan''"
    by (simp_all add: eligible_amount_def amount_text_def cash_record_fields strip_Tax
        strip_nan)
  have "tax_row (dated_record ''Tax'' ''nan'' ''2025-01-02'') =
      Inr (Some \<lparr>Symbol = ''$CASH'', Side = ''Taxes and fees'', Qty = NaN, Fill_Price = [],
           Commission = Str [], Closing_Time = ''2025-01-02 0:00:00''\<rparr>)"
    by (simp add: tax_row_cases e1 a1 py_float_nan py_ge0_def py_abs_def dated_record_fields
        strip_date midnight_def)
  moreover have "dividend_row (dated_record ''Tax'' ''nan'' ''2025-01-02'') =
      Inr (Some \<lparr>Symbol = ''$CASH'', Side = ''Dividend'', Qty = NaN, Fill_Price = [],
           Commission = Str [], Closing_Time = ''2025-01-02 0:00:00''\<rparr>)"
    by (simp add: dividend_row_cases e1 a1 py_float_nan py_le0_def dated_record_fields
        strip_date midnight_def)
  moreover have "cash_row (cash_record ''Tax'' ''nan'' ''2025-01-02'') =
      Inr (Some \<lparr>Symbol = ''$CASH'', Side = ''Withdrawal'', Qty = NaN, Fill_Price = [],
           Commission = Str [], Closing_Time = ''2025-01-02 0:00:00''\<rparr>)"
    by (simp add: cash_row_cases e2 a2 py_float_nan py_gt0_def py_abs_def cash_record_fields
        strip_date midnight_def)
  moreover have "trade_row Map.empty
         (trade_record ''Order'' value_stock ''USD'' ''AAPL'' ''2025-08-14, 11:32:43'' ''nan''
            ''150.25'' []) =
       Inr (Some \<lparr>Symbol = ''NASDAQ:AAPL'', Side = ''Sell'', Qty = NaN, Fill_Price = ''150.25'',
             Commission = Str [], Closing_Time = ''2025-08-14 11:32:43''\<rparr>)"
    using trade_row_example [OF py_float_nan] by (simp add: py_gt0_def py_abs_def)
  ultimately show ?thesis
    by (simp add: convert_taxes_def convert_dividends_def convert_cash_transactions_def
        convert_trades_def py_ge0_def)
qed

end
